theory Spec2Isabelle
  imports
    Complex_Main
    "HOL-Library.Char_ord"
    "HOL-Library.List_Lexorder"
    "HOL-Library.Product_Lexorder"
begin

section \<open>Cells, strings and the dataframe primitives the two scripts use\<close>

text \<open>
  A cell of a text column read by \<^verbatim>\<open>pd.read_csv\<close> is either missing (the float NaN) or
  a string; the loaders write \<^verbatim>\<open>pd.NA\<close> into cells they null out. \<^verbatim>\<open>astype(str)\<close> turns
  every cell into a string: NaN becomes the text nan and \<^verbatim>\<open>pd.NA\<close> the text <NA>.
  Strings are ASCII strings here; \<^verbatim>\<open>str.strip\<close> removes the ASCII characters for which
  \<^verbatim>\<open>str.isspace\<close> holds and \<^verbatim>\<open>str.upper\<close> maps a..z to A..Z.
\<close>

datatype cell = NaN | NA | Str string

fun isna :: "cell \<Rightarrow> bool" where
  "isna (Str s) = False"
| "isna NaN = True"
| "isna NA = True"

fun astype_str :: "cell \<Rightarrow> string" where
  "astype_str (Str s) = s"
| "astype_str NaN = ''nan''"
| "astype_str NA = ''<NA>''"

definition is_space :: "char \<Rightarrow> bool" where
  "is_space c = (let n = (of_char c :: nat) in (9 \<le> n \<and> n \<le> 13) \<or> (28 \<le> n \<and> n \<le> 32))"

definition strip :: "string \<Rightarrow> string" where
  "strip s = rev (dropWhile is_space (rev (dropWhile is_space s)))"

definition upper_char :: "char \<Rightarrow> char" where
  "upper_char c = (let n = (of_char c :: nat) in
     if 97 \<le> n \<and> n \<le> 122 then char_of (n - 32) else c)"

definition upper :: "string \<Rightarrow> string" where
  "upper s = map upper_char s"

definition is_AZ :: "char \<Rightarrow> bool" where
  "is_AZ c = (let n = (of_char c :: nat) in 65 \<le> n \<and> n \<le> 90)"

text \<open>\<^verbatim>\<open>str.fullmatch(r"[A-Z]{2}")\<close>: the whole string is two upper-case letters.\<close>

fun fullmatch_AZ2 :: "string \<Rightarrow> bool" where
  "fullmatch_AZ2 [a, b] = (is_AZ a \<and> is_AZ b)"
| "fullmatch_AZ2 s = False"

text \<open>\<^verbatim>\<open>dropna\<close> on a text column, keeping the strings that are left.\<close>

fun dropna :: "cell list \<Rightarrow> string list" where
  "dropna [] = []"
| "dropna (Str s # cs) = s # dropna cs"
| "dropna (NaN # cs) = dropna cs"
| "dropna (NA # cs) = dropna cs"

text \<open>\<^verbatim>\<open>dropna\<close> on a numeric or timestamp column (None is NaN or NaT).\<close>

fun dropna_opt :: "'a option list \<Rightarrow> 'a list" where
  "dropna_opt [] = []"
| "dropna_opt (None # xs) = dropna_opt xs"
| "dropna_opt (Some x # xs) = x # dropna_opt xs"

text \<open>\<^verbatim>\<open>Series.isin(values)\<close>: a missing cell is in no list of strings.\<close>

fun isin :: "cell \<Rightarrow> string list \<Rightarrow> bool" where
  "isin (Str s) vs = (s \<in> set vs)"
| "isin NaN vs = False"
| "isin NA vs = False"

text \<open>
  The distinct values of a column in order of first appearance (\<^verbatim>\<open>Series.unique\<close>, the key
  order of the hash table behind \<^verbatim>\<open>value_counts\<close>, the insertion order of a
  \<^verbatim>\<open>Counter\<close>).
\<close>

fun unique :: "'a list \<Rightarrow> 'a list" where
  "unique [] = []"
| "unique (x # xs) = x # filter (\<lambda>y. y \<noteq> x) (unique xs)"

text \<open>
  Python's \<^verbatim>\<open>sorted(..., reverse=True)\<close> on the counts, behind
  \<^verbatim>\<open>Counter.most_common\<close>: largest count first, and rows with equal counts in
  the order they had before, since that sort is stable.
\<close>

definition stable_desc :: "('k \<times> nat) list \<Rightarrow> ('k \<times> nat) list" where
  "stable_desc rows = sort_key (\<lambda>kc. - int (snd kc)) rows"

text \<open>
  \<^verbatim>\<open>sort_values(ascending=False)\<close> of pandas, also behind \<^verbatim>\<open>value_counts()\<close>:
  largest count first. The scripts do not choose the sort kind, and the default kind is
  not stable, so the program does not fix the order of rows with equal counts: it is
  whatever the library's sort makes of the column of counts. That is the parameter
  \<open>ties\<close>, which ranks the positions of the column; rows with equal counts come out in
  the order of their ranks (and in the order they had, where the ranks are equal too).
  Every arrangement of a table of distinct rows that is descending in the counts arises
  from some \<open>ties\<close> (lemma \<open>sort_desc_any_order\<close> below), and \<open>stable_ties\<close> is the
  rank function of a stable sort.
\<close>

type_synonym tie_rank = "nat list \<Rightarrow> nat \<Rightarrow> nat"

definition sort_desc :: "tie_rank \<Rightarrow> ('k \<times> nat) list \<Rightarrow> ('k \<times> nat) list" where
  "sort_desc ties rows =
     map snd (sort_key (\<lambda>p. (- int (snd (snd p)), ties (map snd rows) (fst p)))
                (enumerate 0 rows))"

definition stable_ties :: tie_rank where
  "stable_ties counts i = 0"

text \<open>\<^verbatim>\<open>Series.value_counts()\<close> of a column without missing values.\<close>

definition value_counts :: "tie_rank \<Rightarrow> 'k list \<Rightarrow> ('k \<times> nat) list" where
  "value_counts ties ks = sort_desc ties (map (\<lambda>k. (k, count_list ks k)) (unique ks))"

text \<open>\<^verbatim>\<open>groupby(key).size()\<close>: one row per distinct key, the keys in ascending order.\<close>

definition groupby_size :: "('k::linorder) list \<Rightarrow> ('k \<times> nat) list" where
  "groupby_size ks = map (\<lambda>k. (k, count_list ks k)) (sort (remdups ks))"

text \<open>\<^verbatim>\<open>Series.reindex(index, fill_value=0)\<close> read at one label.\<close>

definition reindex0 :: "('k \<times> nat) list \<Rightarrow> 'k \<Rightarrow> nat" where
  "reindex0 rows k = (case map_of rows k of None \<Rightarrow> 0 | Some n \<Rightarrow> n)"

text \<open>
  \<^verbatim>\<open>Series.div\<close> on integer columns: the quotient as a float, which is not finite (inf or
  NaN, here None) when the divisor is zero.
\<close>

definition pd_div :: "nat \<Rightarrow> nat \<Rightarrow> rat option" where
  "pd_div a b = (if b = 0 then None else Some (of_nat a / of_nat b))"

text \<open>The position of the first occurrence of a value in a column.\<close>

fun first_index :: "'a list \<Rightarrow> 'a \<Rightarrow> nat" where
  "first_index [] k = 0"
| "first_index (x # xs) k = (if x = k then 0 else Suc (first_index xs k))"

section \<open>Metric cards\<close>

datatype metric_kind = KCount | KPercent | KFloat

record metric =
  label :: string
  mvalue :: rat
  description :: string
  kind :: metric_kind

text \<open>The value of the card with a given label.\<close>

fun card_value :: "metric list \<Rightarrow> string \<Rightarrow> rat option" where
  "card_value [] l = None"
| "card_value (m # ms) l = (if label m = l then Some (mvalue m) else card_value ms l)"

section \<open>State codes and user keys (\<^verbatim>\<open>load_data\<close> of both scripts)\<close>

text \<open>
  \<^verbatim>\<open>df["State"] = df["State"].astype(str).str.strip().str.upper()\<close>, then
  \<^verbatim>\<open>df.loc[~df["State"].str.fullmatch(r"[A-Z]{2}"), "State"] = pd.NA\<close>.
\<close>

definition normalize_state :: "cell \<Rightarrow> cell" where
  "normalize_state c = (let s = upper (strip (astype_str c)) in
     if fullmatch_AZ2 s then Str s else NA)"

text \<open>
  rs2_dr_dashboard: \<^verbatim>\<open>df["UserId"] = df["AccountId"].astype(str).str.strip()\<close>, nulled
  where it is the empty string or the text nan.
\<close>

definition rs2_user_id :: "cell \<Rightarrow> cell" where
  "rs2_user_id account_id = (let s = strip (astype_str account_id) in
     if s \<in> set ['''', ''nan''] then NA else Str s)"

text \<open>
  scan_records_dashboard: AccountId and Email are converted to strings and stripped, and
  \<^verbatim>\<open>df["AccountKey"] = df["AccountId"].where(df["AccountId"].ne(""), df["Email"])\<close>.
\<close>

definition str_strip :: "cell \<Rightarrow> cell" where
  "str_strip c = Str (strip (astype_str c))"

definition account_key :: "cell \<Rightarrow> cell \<Rightarrow> cell" where
  "account_key account_id email =
     (let a = str_strip account_id; e = str_strip email in
      if a \<noteq> Str '''' then a else e)"

section \<open>Remaining primitives\<close>

text \<open>
  \<^verbatim>\<open>set_index(ts).resample(freq).size()\<close> on the parseable timestamps of a frame: one
  row per bucket of width \<open>freq\<close> from the bucket of the earliest timestamp to the bucket of
  the latest one, empty buckets included, labelled with the bucket's start. Rows whose
  timestamp is NaT are in no bucket. Timestamps are nanoseconds since the epoch.
\<close>

definition resample_size :: "int \<Rightarrow> int list \<Rightarrow> (int \<times> nat) list" where
  "resample_size freq ts =
     (case map (\<lambda>t. t div freq) ts of
        [] \<Rightarrow> []
      | b # bs \<Rightarrow> map (\<lambda>i. (i * freq, count_list (b # bs) i)) [fold min bs b .. fold max bs b])"

definition hour_ns :: int where
  "hour_ns = 3600 * 1000000000"

definition day_ns :: int where
  "day_ns = 24 * hour_ns"

text \<open>\<^verbatim>\<open>int(x)\<close> and \<^verbatim>\<open>astype(int)\<close> on a float: truncation towards zero.\<close>

definition py_int :: "rat \<Rightarrow> int" where
  "py_int x = (if 0 \<le> x then \<lfloor>x\<rfloor> else \<lceil>x\<rceil>)"

text \<open>Decimal text of an integer, as an f-string prints it.\<close>

definition digit_char :: "nat \<Rightarrow> char" where
  "digit_char d = char_of (48 + d)"

function str_nat :: "nat \<Rightarrow> string" where
  "str_nat n = (if n < 10 then [digit_char n] else str_nat (n div 10) @ [digit_char (n mod 10)])"
  by pat_completeness auto
termination
  by (relation "measure id") auto

declare str_nat.simps [simp del]

definition str_int :: "int \<Rightarrow> string" where
  "str_int i = (if i < 0 then CHR ''-'' # str_nat (nat (- i)) else str_nat (nat i))"

text \<open>\<^verbatim>\<open>s.split(c)\<close> and \<^verbatim>\<open>sep.join(parts)\<close>.\<close>

fun split_on :: "char \<Rightarrow> string \<Rightarrow> string list" where
  "split_on c [] = [[]]"
| "split_on c (x # xs) =
     (if x = c then [] # split_on c xs
      else (case split_on c xs of [] \<Rightarrow> [[x]] | w # ws \<Rightarrow> (x # w) # ws))"

fun join :: "string \<Rightarrow> string list \<Rightarrow> string" where
  "join sep [] = []"
| "join sep [p] = p"
| "join sep (p # q # ps) = p @ sep @ join sep (q # ps)"

text \<open>
  A \<^verbatim>\<open>Counter\<close> is a dictionary in insertion order; \<^verbatim>\<open>counter[name] += 1\<close> adds a new
  key at the end. \<^verbatim>\<open>most_common(n)\<close> is the first n entries of the counter sorted by
  count, largest first, equal counts in insertion order.
\<close>

fun counter_add :: "(string \<times> nat) list \<Rightarrow> string \<Rightarrow> (string \<times> nat) list" where
  "counter_add [] k = [(k, 1)]"
| "counter_add ((k', n) # c) k =
     (if k' = k then (k', n + 1) # c else (k', n) # counter_add c k)"

definition most_common :: "nat \<Rightarrow> (string \<times> nat) list \<Rightarrow> (string \<times> nat) list" where
  "most_common n c = take n (stable_desc c)"

text \<open>The rows of two text columns in which neither cell is missing.\<close>

fun dropna2 :: "(cell \<times> cell) list \<Rightarrow> (string \<times> string) list" where
  "dropna2 [] = []"
| "dropna2 ((Str a, Str b) # ps) = (a, b) # dropna2 ps"
| "dropna2 (p # ps) = dropna2 ps"

section \<open>The columns the two CSV files share\<close>

text \<open>
  \<open>CreatedDateTimeUTC\<close> holds what \<^verbatim>\<open>pd.to_datetime(..., errors="coerce")\<close> makes of the
  cell: an instant, or None (NaT) when the text does not parse.
\<close>

record scan_csv =
  CreatedDateTimeUTC :: "int option"
  AccountId :: cell
  VIN :: cell
  State :: cell

section \<open>scan_records_dashboard\<close>

record sr_csv = scan_csv +
  Email :: cell

record sr_row = sr_csv +
  AccountKey :: cell

definition sr_normalize :: "sr_csv \<Rightarrow> sr_row" where
  "sr_normalize r =
     \<lparr> CreatedDateTimeUTC = CreatedDateTimeUTC r,
       AccountId = str_strip (AccountId r),
       VIN = str_strip (VIN r),
       State = normalize_state (State r),
       Email = str_strip (Email r),
       AccountKey = account_key (AccountId r) (Email r) \<rparr>"

definition sr_load_data :: "sr_csv list \<Rightarrow> sr_row list" where
  "sr_load_data rows = map sr_normalize rows"

record state_row =
  ss_state :: string
  total_scans :: nat
  repeat_scans :: nat
  repeat_scan_share :: "rat option"
  scan_share :: "rat option"

record repeat_user_row =
  ru_state :: string
  repeat_users :: nat
  repeat_user_share_all_repeat :: "rat option"
  repeat_user_share_in_state :: rat

text \<open>The local variables of \<^verbatim>\<open>summarize\<close>, in the order of the source.\<close>

definition sr_user_counts :: "sr_row list \<Rightarrow> (string \<times> nat) list" where
  "sr_user_counts df = groupby_size (dropna (map AccountKey df))"

definition sr_repeat_user_counts :: "sr_row list \<Rightarrow> (string \<times> nat) list" where
  "sr_repeat_user_counts df = filter (\<lambda>kc. snd kc > 1) (sr_user_counts df)"

definition sr_repeat_user_ids :: "sr_row list \<Rightarrow> string list" where
  "sr_repeat_user_ids df = map fst (sr_repeat_user_counts df)"

definition sr_repeat_user_scans :: "sr_row list \<Rightarrow> nat" where
  "sr_repeat_user_scans df = sum_list (map snd (sr_repeat_user_counts df))"

definition sr_repeat_user_scan_share :: "sr_row list \<Rightarrow> rat" where
  "sr_repeat_user_scan_share df =
     (if length df \<noteq> 0 then of_nat (sr_repeat_user_scans df) / of_nat (length df) else 0)"

definition sr_unique_users :: "sr_row list \<Rightarrow> nat" where
  "sr_unique_users df = length (sr_user_counts df)"

definition sr_repeat_users :: "sr_row list \<Rightarrow> nat" where
  "sr_repeat_users df = length (sr_repeat_user_counts df)"

definition sr_repeat_user_share :: "sr_row list \<Rightarrow> rat" where
  "sr_repeat_user_share df =
     (if sr_unique_users df \<noteq> 0
      then of_nat (sr_repeat_users df) / of_nat (sr_unique_users df) else 0)"

definition sr_vin_counts :: "tie_rank \<Rightarrow> sr_row list \<Rightarrow> (string \<times> nat) list" where
  "sr_vin_counts ties df = value_counts ties (dropna (map VIN df))"

definition sr_repeat_vins :: "tie_rank \<Rightarrow> sr_row list \<Rightarrow> (string \<times> nat) list" where
  "sr_repeat_vins ties df = filter (\<lambda>kc. snd kc > 1) (sr_vin_counts ties df)"

definition sr_summary :: "tie_rank \<Rightarrow> sr_row list \<Rightarrow> metric list" where
  "sr_summary ties df =
     [ \<lparr> label = ''Total scans'', mvalue = of_nat (length df),
         description = ''All scan events in the dataset.'', kind = KCount \<rparr>,
       \<lparr> label = ''Repeat-user scans'', mvalue = of_nat (sr_repeat_user_scans df),
         description = ''Scan events coming from repeat users.'', kind = KCount \<rparr>,
       \<lparr> label = ''Repeat-user scan share'', mvalue = sr_repeat_user_scan_share df,
         description = ''Share of total scans that came from repeat users.'',
         kind = KPercent \<rparr>,
       \<lparr> label = ''Unique users'', mvalue = of_nat (sr_unique_users df),
         description =
           ''Distinct users (AccountId fallback to Email) with at least one scan.'',
         kind = KCount \<rparr>,
       \<lparr> label = ''Repeat users'', mvalue = of_nat (sr_repeat_users df),
         description = ''Users with more than one scan overall.'', kind = KCount \<rparr>,
       \<lparr> label = ''Repeat-user share'', mvalue = sr_repeat_user_share df,
         description = ''Share of users who are repeat users (scanned >1).'',
         kind = KPercent \<rparr>,
       \<lparr> label = ''Unique VINs'', mvalue = of_nat (length (sr_vin_counts ties df)),
         description = ''Distinct VINs scanned at least once.'', kind = KCount \<rparr>,
       \<lparr> label = ''VINs scanned multiple times'',
         mvalue = of_nat (length (sr_repeat_vins ties df)),
         description = ''VINs with more than one scan.'', kind = KCount \<rparr> ]"

definition sr_state_counts :: "tie_rank \<Rightarrow> sr_row list \<Rightarrow> (string \<times> nat) list" where
  "sr_state_counts ties df = sort_desc ties (groupby_size (dropna (map State df)))"

definition sr_repeat_state_counts :: "sr_row list \<Rightarrow> (string \<times> nat) list" where
  "sr_repeat_state_counts df =
     groupby_size (dropna (map State
       (filter (\<lambda>r. isin (AccountKey r) (sr_repeat_user_ids df)) df)))"

definition sr_state_summary :: "tie_rank \<Rightarrow> sr_row list \<Rightarrow> state_row list" where
  "sr_state_summary ties df =
     map (\<lambda>(s, n).
        let rep = reindex0 (sr_repeat_state_counts df) s in
        \<lparr> ss_state = s, total_scans = n, repeat_scans = rep,
          repeat_scan_share = pd_div rep n,
          scan_share = pd_div n (if length df \<noteq> 0 then length df else 1) \<rparr>)
       (sr_state_counts ties df)"

text \<open>
  \<^verbatim>\<open>df.dropna(subset=["State"]).drop_duplicates(subset=["State", "AccountKey"])\<close>: the
  (state, key) pairs of the rows with a state, each pair once.
\<close>

fun with_state :: "sr_row list \<Rightarrow> (string \<times> cell) list" where
  "with_state [] = []"
| "with_state (r # rs) =
     (case State r of Str s \<Rightarrow> (s, AccountKey r) # with_state rs | _ \<Rightarrow> with_state rs)"

definition sr_user_state :: "sr_row list \<Rightarrow> (string \<times> cell) list" where
  "sr_user_state df = unique (with_state df)"

definition sr_repeat_users_by_state :: "sr_row list \<Rightarrow> (string \<times> nat) list" where
  "sr_repeat_users_by_state df =
     groupby_size (map fst
       (filter (\<lambda>p. isin (snd p) (sr_repeat_user_ids df)) (sr_user_state df)))"

definition sr_unique_users_by_state :: "sr_row list \<Rightarrow> (string \<times> nat) list" where
  "sr_unique_users_by_state df = groupby_size (map fst (sr_user_state df))"

text \<open>
  Arithmetic between two Series aligns them on their index labels. The column
  \<open>repeat_users\<close> of the frame \<open>repeat_user_state\<close> is labelled by row position, the
  reindexed \<open>unique_users_by_state\<close> by state code. A label that one side lacks gives NaN,
  \<^verbatim>\<open>replace(0, pd.NA)\<close> gives NA for a zero divisor, \<^verbatim>\<open>fillna(0)\<close> turns both into 0,
  and the assignment to the frame keeps the rows at the frame's own labels.
\<close>

datatype index_label = Pos nat | Key string

definition align_div_fillna0 ::
  "(index_label \<times> nat) list \<Rightarrow> (index_label \<times> nat) list \<Rightarrow> rat list" where
  "align_div_fillna0 left right =
     map (\<lambda>(l, a). case map_of right l of
                      None \<Rightarrow> 0
                    | Some b \<Rightarrow> if b = 0 then 0 else of_nat a / of_nat b) left"

definition sr_repeat_user_state :: "tie_rank \<Rightarrow> sr_row list \<Rightarrow> repeat_user_row list" where
  "sr_repeat_user_state ties df =
     (let idx = map fst (sr_state_counts ties df);
          rus = map (reindex0 (sr_repeat_users_by_state df)) idx;
          in_state = align_div_fillna0
            (zip (map Pos [0 ..< length idx]) rus)
            (map (\<lambda>s. (Key s, reindex0 (sr_unique_users_by_state df) s)) idx)
      in map (\<lambda>(s, ru, share).
           \<lparr> ru_state = s, repeat_users = ru,
             repeat_user_share_all_repeat =
               pd_div ru (if sr_repeat_users df \<noteq> 0 then sr_repeat_users df else 1),
             repeat_user_share_in_state = share \<rparr>)
         (zip idx (zip rus in_state)))"

text \<open>
  \<^verbatim>\<open>df.set_index("CreatedDateTimeUTC").resample("D").size()\<close>. What pandas does when the
  frame has rows and no timestamp parses is not fixed here: it is the parameter
  \<open>all_nat\<close>, an exception (Inl) or a table.
\<close>

datatype error = ResampleError

definition sr_scans_by_day ::
  "(error + (int \<times> nat) list) \<Rightarrow> sr_row list \<Rightarrow> error + (int \<times> nat) list" where
  "sr_scans_by_day all_nat df =
     (let ts = map CreatedDateTimeUTC df in
      if ts \<noteq> [] \<and> dropna_opt ts = [] then all_nat
      else Inr (resample_size day_ns (dropna_opt ts)))"

definition sr_summarize ::
  "(error + (int \<times> nat) list) \<Rightarrow> tie_rank \<Rightarrow> sr_row list \<Rightarrow>
   error + (metric list \<times> state_row list \<times> repeat_user_row list \<times> (int \<times> nat) list)" where
  "sr_summarize all_nat ties df =
     (case sr_scans_by_day all_nat df of
        Inl e \<Rightarrow> Inl e
      | Inr scans_by_day \<Rightarrow>
          Inr (sr_summary ties df, sr_state_summary ties df, sr_repeat_user_state ties df, scans_by_day))"

text \<open>\<^verbatim>\<open>build_figures\<close>: \<^verbatim>\<open>state_summary.nlargest(10, "total_scans")\<close>, which keeps the
  first of the rows with equal totals.\<close>

definition sr_top_states :: "state_row list \<Rightarrow> state_row list" where
  "sr_top_states state_summary =
     take 10 (sort_key (\<lambda>r. - int (total_scans r)) state_summary)"

section \<open>rs2_dr_dashboard\<close>

text \<open>
  The numeric columns hold what \<^verbatim>\<open>pd.to_numeric(..., errors="coerce")\<close> and the CSV
  reader make of the cells: a number, or None (NaN).
\<close>

record rs2_csv = scan_csv +
  Year :: "rat option"
  Mileage :: "rat option"
  TotalAbsCodes :: "rat option"
  TotalSrsCodes :: "rat option"
  Make :: cell
  Model :: cell
  MaintenancePartsCount :: "rat option"
  PredictedPartsCount :: "rat option"
  UsbProductId :: "rat option"
  MIL_DTC :: cell
  MIL_Part_Name :: cell
  ABS_Part_Name :: cell
  SRS_Part_Name :: cell

record rs2_row = rs2_csv +
  CreatedDateTimePT :: "int option"
  UserId :: cell
  VehicleAge :: "rat option"
  Vehicle :: cell

text \<open>
  \<open>VehicleAge\<close> is 2026 minus the year, nulled for years before 1980 or after 2026.
  \<^verbatim>\<open>vehicle_label\<close> returns None, a missing cell of the column \<open>Vehicle\<close>
  (here NaN), unless year, make and model are all present and make and model are not blank.
\<close>

definition vehicle_age :: "rat option \<Rightarrow> rat option" where
  "vehicle_age y =
     (case y of None \<Rightarrow> None
      | Some v \<Rightarrow> if v < 1980 \<or> v > 2026 then None else Some (2026 - v))"

definition vehicle_label :: "rs2_csv \<Rightarrow> cell" where
  "vehicle_label row =
     (case Year row of None \<Rightarrow> NaN
      | Some y \<Rightarrow>
          if isna (Make row) \<or> isna (Model row) then NaN
          else let year = py_int y;
                   make = strip (astype_str (Make row));
                   model = strip (astype_str (Model row))
               in if make = [] \<or> model = [] then NaN
                  else Str (str_int year @ '' '' @ make @ '' '' @ model))"

definition rs2_normalize :: "rs2_csv \<Rightarrow> rs2_row" where
  "rs2_normalize r =
     \<lparr> CreatedDateTimeUTC = CreatedDateTimeUTC r,
       AccountId = AccountId r,
       VIN = VIN r,
       State = normalize_state (State r),
       Year = Year r,
       Mileage = Mileage r,
       TotalAbsCodes = TotalAbsCodes r,
       TotalSrsCodes = TotalSrsCodes r,
       Make = Make r,
       Model = Model r,
       MaintenancePartsCount = MaintenancePartsCount r,
       PredictedPartsCount = PredictedPartsCount r,
       UsbProductId = UsbProductId r,
       MIL_DTC = MIL_DTC r,
       MIL_Part_Name = MIL_Part_Name r,
       ABS_Part_Name = ABS_Part_Name r,
       SRS_Part_Name = SRS_Part_Name r,
       CreatedDateTimePT = CreatedDateTimeUTC r,
       UserId = rs2_user_id (AccountId r),
       VehicleAge = vehicle_age (Year r),
       Vehicle = vehicle_label r \<rparr>"

definition rs2_load_data :: "rs2_csv list \<Rightarrow> rs2_row list" where
  "rs2_load_data rows = map rs2_normalize rows"

text \<open>\<^verbatim>\<open>explode_parts\<close>: the two nested loops over the cells and over their parts.\<close>

definition count_part :: "string \<Rightarrow> (string \<times> nat) list \<Rightarrow> (string \<times> nat) list" where
  "count_part part counter =
     (let name = strip part in if name \<noteq> [] then counter_add counter name else counter)"

definition explode_parts :: "cell list \<Rightarrow> (string \<times> nat) list" where
  "explode_parts series =
     fold (\<lambda>raw counter. fold count_part (split_on CHR '';'' raw) counter) (dropna series) []"

record dtc_row =
  dtc :: string
  dtc_scans :: nat
  top_parts :: string

definition top_mil_dtc :: "tie_rank \<Rightarrow> rs2_row list \<Rightarrow> nat \<Rightarrow> dtc_row list" where
  "top_mil_dtc ties df limit =
     (let dtc_counts = value_counts ties (map strip (dropna (map MIL_DTC df))) in
      map (\<lambda>(d, n).
         let parts_counter = explode_parts (map MIL_Part_Name
               (filter (\<lambda>r. strip (astype_str (MIL_DTC r)) = d) df));
             parts_str =
               (if parts_counter \<noteq> []
                then join '', '' (map (\<lambda>(name, cnt). name @ '' ('' @ str_nat cnt @ '')'')
                                    (most_common 3 parts_counter))
                else ''n/a'')
         in \<lparr> dtc = d, dtc_scans = n, top_parts = parts_str \<rparr>)
        (take limit dtc_counts))"

text \<open>The local variables of \<^verbatim>\<open>summarize\<close>, in the order of the source.\<close>

definition safe_mean :: "rat option list \<Rightarrow> rat" where
  "safe_mean series =
     (let cleaned = dropna_opt series in
      if cleaned \<noteq> [] then sum_list cleaned / of_nat (length cleaned) else 0)"

definition rs2_unique_vins :: "rs2_row list \<Rightarrow> nat" where
  "rs2_unique_vins df = length (unique (dropna (map VIN df)))"

definition rs2_user_counts :: "tie_rank \<Rightarrow> rs2_row list \<Rightarrow> (string \<times> nat) list" where
  "rs2_user_counts ties df = value_counts ties (dropna (map UserId df))"

definition rs2_total_scanned_users :: "tie_rank \<Rightarrow> rs2_row list \<Rightarrow> nat" where
  "rs2_total_scanned_users ties df = length (rs2_user_counts ties df)"

definition rs2_repeat_pairs :: "rs2_row list \<Rightarrow> ((string \<times> string) \<times> nat) list" where
  "rs2_repeat_pairs df = groupby_size (dropna2 (map (\<lambda>r. (UserId r, VIN r)) df))"

definition rs2_repeat_accounts :: "rs2_row list \<Rightarrow> string list" where
  "rs2_repeat_accounts df =
     unique (map (\<lambda>pc. fst (fst pc)) (filter (\<lambda>pc. snd pc \<ge> 2) (rs2_repeat_pairs df)))"

definition rs2_repeat_user_count :: "rs2_row list \<Rightarrow> nat" where
  "rs2_repeat_user_count df = length (rs2_repeat_accounts df)"

definition rs2_repeat_user_share :: "tie_rank \<Rightarrow> rs2_row list \<Rightarrow> rat" where
  "rs2_repeat_user_share ties df =
     (if rs2_total_scanned_users ties df \<noteq> 0
      then of_nat (rs2_repeat_user_count df) / of_nat (rs2_total_scanned_users ties df) else 0)"

definition rs2_cards :: "tie_rank \<Rightarrow> rs2_row list \<Rightarrow> metric list" where
  "rs2_cards ties df =
     [ \<lparr> label = ''Total scans'', mvalue = of_nat (length df),
         description = ''All scan events in the dataset.'', kind = KCount \<rparr>,
       \<lparr> label = ''Total scanned users'', mvalue = of_nat (rs2_total_scanned_users ties df),
         description = ''Distinct AccountId values with at least one scan.'',
         kind = KCount \<rparr>,
       \<lparr> label = ''Average vehicle age'', mvalue = safe_mean (map VehicleAge df),
         description = ''Mean of (2026 - Year) for valid years.'', kind = KFloat \<rparr>,
       \<lparr> label = ''Average mileage'', mvalue = safe_mean (map Mileage df),
         description = ''Mean of mileage across scans.'', kind = KFloat \<rparr>,
       \<lparr> label = ''Average ABS code count'', mvalue = safe_mean (map TotalAbsCodes df),
         description = ''Mean of TotalAbsCodes where present.'', kind = KFloat \<rparr>,
       \<lparr> label = ''Average SRS code count'', mvalue = safe_mean (map TotalSrsCodes df),
         description = ''Mean of TotalSrsCodes where present.'', kind = KFloat \<rparr>,
       \<lparr> label = ''Maintenance parts (total)'',
         mvalue = of_int (py_int (sum_list (dropna_opt (map MaintenancePartsCount df)))),
         description = ''Sum of MaintenancePartsCount.'', kind = KCount \<rparr>,
       \<lparr> label = ''Predicted parts (total)'',
         mvalue = of_int (py_int (sum_list (dropna_opt (map PredictedPartsCount df)))),
         description = ''Sum of PredictedPartsCount.'', kind = KCount \<rparr>,
       \<lparr> label = ''Unique VINs'', mvalue = of_nat (rs2_unique_vins df),
         description = ''Distinct VINs scanned.'', kind = KCount \<rparr>,
       \<lparr> label = ''Repeat users'', mvalue = of_nat (rs2_repeat_user_count df),
         description = ''AccountId values that scanned the same VIN at least twice.'',
         kind = KCount \<rparr>,
       \<lparr> label = ''Repeat user share'', mvalue = rs2_repeat_user_share ties df,
         description = ''Share of scanned users who repeated on the same VIN.'',
         kind = KPercent \<rparr> ]"

definition rs2_top_vehicles :: "tie_rank \<Rightarrow> rs2_row list \<Rightarrow> (string \<times> nat) list" where
  "rs2_top_vehicles ties df = take 10 (value_counts ties (dropna (map Vehicle df)))"

definition rs2_top_usb :: "tie_rank \<Rightarrow> rs2_row list \<Rightarrow> (int \<times> nat) list" where
  "rs2_top_usb ties df = take 5 (value_counts ties (map py_int (dropna_opt (map UsbProductId df))))"

definition parts_table :: "cell list \<Rightarrow> (string \<times> nat) list" where
  "parts_table series =
     (let parts_counter = explode_parts series in
      if parts_counter \<noteq> [] then most_common 10 parts_counter else [])"

definition rs2_state_counts :: "tie_rank \<Rightarrow> rs2_row list \<Rightarrow> (string \<times> nat) list" where
  "rs2_state_counts ties df = sort_desc ties (groupby_size (dropna (map State df)))"

text \<open>
  The hourly series: the buckets of the resampled frame from 23 hours before the latest
  bucket on. The frame is resampled only when some timestamp is not NaT.
\<close>

definition rs2_hourly :: "rs2_row list \<Rightarrow> (int \<times> nat) list" where
  "rs2_hourly df =
     (let ts = dropna_opt (map CreatedDateTimeUTC df) in
      if ts \<noteq> [] then
        (let hourly = resample_size hour_ns ts in
         case hourly of
           [] \<Rightarrow> hourly
         | h # hs \<Rightarrow>
             let max_time = fold max (map fst hs) (fst h);
                 window_start = max_time - 23 * hour_ns
             in filter (\<lambda>row. fst row \<ge> window_start) hourly)
      else [])"

text \<open>
  \<^verbatim>\<open>df[df["UserId"].isin(repeat_accounts)].dropna(subset=["State"])
  .groupby("State")["UserId"].nunique()\<close>.
\<close>

definition rs2_repeat_users_by_state :: "rs2_row list \<Rightarrow> (string \<times> nat) list" where
  "rs2_repeat_users_by_state df =
     (let rows = dropna2 (map (\<lambda>r. (State r, UserId r))
                   (filter (\<lambda>r. isin (UserId r) (rs2_repeat_accounts df)) df))
      in map (\<lambda>s. (s, length (unique (map snd (filter (\<lambda>p. fst p = s) rows)))))
           (sort (remdups (map fst rows))))"

record rs2_summary =
  cards :: "metric list"
  top_vehicles :: "(string \<times> nat) list"
  top_usb :: "(int \<times> nat) list"
  mil_dtc :: "dtc_row list"
  abs_parts :: "(string \<times> nat) list"
  srs_parts :: "(string \<times> nat) list"
  scans_by_state :: "(string \<times> nat) list"
  hourly :: "(int \<times> nat) list"
  repeat_users_by_state :: "(string \<times> nat) list"
  top_states :: "(string \<times> nat) list"

text \<open>\<open>top_states\<close> is the entry of \<open>chart_data\<close> with that name,
  \<^verbatim>\<open>scans_by_state.head(10)\<close>; the other entries of \<open>chart_data\<close> repeat the tables.\<close>

definition rs2_summarize :: "tie_rank \<Rightarrow> rs2_row list \<Rightarrow> rs2_summary" where
  "rs2_summarize ties df =
     \<lparr> cards = rs2_cards ties df,
       top_vehicles = rs2_top_vehicles ties df,
       top_usb = rs2_top_usb ties df,
       mil_dtc = top_mil_dtc ties df 10,
       abs_parts = parts_table (map ABS_Part_Name df),
       srs_parts = parts_table (map SRS_Part_Name df),
       scans_by_state = rs2_state_counts ties df,
       hourly = rs2_hourly df,
       repeat_users_by_state = rs2_repeat_users_by_state df,
       top_states = take 10 (rs2_state_counts ties df) \<rparr>"

section \<open>Properties of ranked tables\<close>


definition counts_descend :: "('k \<times> nat) list \<Rightarrow> bool" where
  "counts_descend rows = sorted_wrt (\<lambda>a b. snd b \<le> snd a) rows"


text \<open>The hourly buckets (hours since the epoch) of the parseable timestamps of a frame.\<close>

definition hour_buckets :: "rs2_row list \<Rightarrow> int list" where
  "hour_buckets df = map (\<lambda>t. t div hour_ns) (dropna_opt (map CreatedDateTimeUTC df))"

section \<open>Properties of the multi-value explosion\<close>

text \<open>
  The tokens of a column of semicolon-separated cells, as the specification words them:
  every cell that is not missing is split on the semicolon, each part is trimmed, and the
  empty parts are dropped. A counter counts a list of tokens when its keys are the distinct
  tokens in order of first appearance and each key maps to its number of occurrences.
\<close>

definition part_tokens :: "cell list \<Rightarrow> string list" where
  "part_tokens series =
     filter (\<lambda>name. name \<noteq> [])
       (map strip (concat (map (split_on CHR '';'') (dropna series))))"

definition counts_tokens :: "(string \<times> nat) list \<Rightarrow> string list \<Rightarrow> bool" where
  "counts_tokens c ts =
     (map fst c = unique ts \<and>
      (\<forall>k. map_of c k = (if k \<in> set ts then Some (count_list ts k) else None)))"

section \<open>Basic facts\<close>

lemma is_AZ_not_space: "is_AZ c \<Longrightarrow> \<not> is_space c"
  by (simp add: is_AZ_def is_space_def Let_def)

lemma is_AZ_upper: "is_AZ c \<Longrightarrow> upper_char c = c"
  by (simp add: is_AZ_def upper_char_def Let_def)

lemma fullmatch_AZ2_cases:
  "fullmatch_AZ2 s \<Longrightarrow> \<exists>a b. s = [a, b] \<and> is_AZ a \<and> is_AZ b"
  by (cases s rule: fullmatch_AZ2.cases) simp_all

lemma strip_AZ2: "fullmatch_AZ2 s \<Longrightarrow> strip s = s"
  by (auto dest!: fullmatch_AZ2_cases simp: strip_def is_AZ_not_space)

lemma upper_AZ2: "fullmatch_AZ2 s \<Longrightarrow> upper s = s"
  by (auto dest!: fullmatch_AZ2_cases simp: upper_def is_AZ_upper)

lemma normalize_state_NA: "normalize_state NA = NA"
  by (simp add: normalize_state_def strip_def upper_def is_space_def)

lemma normalize_state_Str: "fullmatch_AZ2 s \<Longrightarrow> normalize_state (Str s) = Str s"
  by (simp add: normalize_state_def strip_AZ2 upper_AZ2)

lemma normalize_state_range:
  "normalize_state c = NA \<or> (\<exists>s. normalize_state c = Str s \<and> fullmatch_AZ2 s)"
  by (simp add: normalize_state_def Let_def)

section \<open>Claims about normalization\<close>

text \<open>
  C6. State-code normalization (trim, upper-case, null anything that is not exactly two
  upper-case letters) is idempotent: normalizing an already normalized state cell leaves it
  unchanged.
\<close>

theorem C6_normalize_state_idempotent:
  "normalize_state (normalize_state c) = normalize_state c"
proof -
  from normalize_state_range [of c] show ?thesis
  proof
    assume "normalize_state c = NA"
    then show ?thesis by (simp add: normalize_state_NA)
  next
    assume "\<exists>s. normalize_state c = Str s \<and> fullmatch_AZ2 s"
    then show ?thesis by (auto simp: normalize_state_Str)
  qed
qed

theorem C6_normalize_state_idempotent_witness:
  "normalize_state (normalize_state (Str '' ca '')) = Str ''CA''
   \<and> normalize_state (normalize_state (Str ''california'')) = NA
   \<and> normalize_state (normalize_state NaN) = NA"
proof -
  have a: "normalize_state (Str '' ca '') = Str ''CA''" by code_simp
  have b: "normalize_state (Str ''california'') = NA" by code_simp
  have c: "normalize_state NaN = NA" by code_simp
  show ?thesis
    using C6_normalize_state_idempotent [of "Str '' ca ''"]
      C6_normalize_state_idempotent [of "Str ''california''"]
      C6_normalize_state_idempotent [of NaN]
    by (simp add: a b c)
qed

text \<open>
  C4. The user key is the first non-empty identifier: in scan_records_dashboard the
  AccountId, and the Email when the AccountId is missing or empty. The loader does not do
  this for a missing AccountId: the cell has become the text nan before it is compared
  with the empty string, and that text is the key of the row. At the input below, a row
  without AccountId and with Email a@b.com, the key is nan; only an AccountId of white
  space falls back to the Email. In rs2_dr_dashboard the key of the same row is null.
\<close>

theorem C4_account_key_missing_account_id:
  "map AccountKey (sr_load_data
      [ \<lparr> CreatedDateTimeUTC = None, AccountId = NaN, VIN = Str ''V1'',
          State = Str ''CA'', Email = Str ''a@b.com'' \<rparr>,
        \<lparr> CreatedDateTimeUTC = None, AccountId = Str ''  '', VIN = Str ''V2'',
          State = Str ''CA'', Email = Str ''c@d.com'' \<rparr> ])
   = [Str ''nan'', Str ''c@d.com'']
   \<and> rs2_user_id NaN = NA"
  by code_simp

section \<open>Facts about the dataframe primitives\<close>

lemma set_unique [simp]: "set (unique xs) = set xs"
  by (induction xs) auto

lemma distinct_unique [simp]: "distinct (unique xs)"
  by (induction xs) auto

lemma length_unique: "length (unique xs) = card (set xs)"
  by (metis distinct_card distinct_unique set_unique)

lemma set_sort_desc [simp]: "set (sort_desc ties rows) = set rows"
proof -
  have "snd ` set (enumerate 0 rows) = set rows"
    by (metis map_snd_enumerate set_map)
  then show ?thesis by (simp add: sort_desc_def)
qed

lemma length_sort_desc [simp]: "length (sort_desc ties rows) = length rows"
  by (simp add: sort_desc_def)

lemma distinct_map_insort_key:
  "distinct (map g (insort_key f x xs)) \<longleftrightarrow> g x \<notin> g ` set xs \<and> distinct (map g xs)"
  by (induction xs) (auto simp: set_insort_key)

lemma distinct_map_sort_key:
  "distinct (map g (sort_key f xs)) \<longleftrightarrow> distinct (map g xs)"
  by (induction xs) (auto simp: distinct_map_insort_key)

lemma distinct_sort_desc [simp]: "distinct (sort_desc ties rows) = distinct rows"
  by (simp add: sort_desc_def distinct_map_sort_key map_snd_enumerate)













lemma first_index_unique_sorted:
  "sorted_wrt (\<lambda>a b. first_index xs a < first_index xs b) (unique xs)"
proof (induction xs)
  case Nil
  then show ?case by simp
next
  case (Cons x xs)
  have "sorted_wrt (\<lambda>a b. first_index xs a < first_index xs b)
          (filter (\<lambda>y. y \<noteq> x) (unique xs))"
    using Cons.IH by (rule sorted_wrt_filter)
  then have "sorted_wrt (\<lambda>a b. first_index (x # xs) a < first_index (x # xs) b)
          (filter (\<lambda>y. y \<noteq> x) (unique xs))"
    by (rule sorted_wrt_mono_rel [rotated]) auto
  then show ?case by auto
qed

lemma groupby_size_keys: "map fst (groupby_size ks) = sort (remdups ks)"
  by (simp add: groupby_size_def comp_def)

lemma groupby_size_distinct: "distinct (map fst (groupby_size ks))"
  by (simp add: groupby_size_keys)

lemma map_of_groupby_size:
  "map_of (groupby_size ks) k = (if k \<in> set ks then Some (count_list ks k) else None)"
  by (auto simp: groupby_size_def map_of_map_restrict restrict_map_def)


lemma value_counts_keys_set: "fst ` set (value_counts ties ks) = set ks"
  by (auto simp: value_counts_def image_iff)

lemma length_value_counts: "length (value_counts ties ks) = card (set ks)"
  by (simp add: value_counts_def length_unique)

section \<open>The order of rows with equal counts\<close>

text \<open>
  The parameter of \<open>sort_desc\<close> leaves out no behaviour of a sort: every arrangement of
  a table of distinct rows whose counts descend is the result of \<open>sort_desc\<close> for some
  rank function.
\<close>

lemma unique_distinct: "distinct xs \<Longrightarrow> unique xs = xs"
  by (induction xs) (auto simp: filter_id_conv)

lemma map_insort_key_comp:
  "map g (insort_key (\<lambda>p. k (g p)) x xs) = insort_key k (g x) (map g xs)"
  by (induction xs) auto

lemma map_sort_key_comp:
  "map g (sort_key (\<lambda>p. k (g p)) xs) = sort_key k (map g xs)"
  by (induction xs) (simp_all add: map_insort_key_comp)

lemma sorted_wrt_conj:
  "sorted_wrt P xs \<Longrightarrow> sorted_wrt Q xs \<Longrightarrow> sorted_wrt (\<lambda>a b. P a b \<and> Q a b) xs"
  by (induction xs) auto

lemma enumerate_nth:
  "p \<in> set (enumerate 0 rows) \<Longrightarrow> rows ! fst p = snd p"
  by (auto simp: in_set_enumerate_eq)

lemma insort_key_agree:
  "f x = g x \<Longrightarrow> \<forall>y \<in> set ys. f y = g y \<Longrightarrow> insort_key f x ys = insort_key g x ys"
  by (induction ys) auto

lemma sort_key_agree:
  "\<forall>x \<in> set xs. f x = g x \<Longrightarrow> sort_key f xs = sort_key g xs"
  by (induction xs) (auto intro: insort_key_agree)

lemma sort_desc_any_order:
  assumes "distinct rows" and "distinct perm" and "set perm = set rows"
    and "counts_descend perm"
  shows "\<exists>ties. sort_desc ties rows = perm"
proof -
  let ?h = "\<lambda>kc. (- int (snd kc), first_index perm kc)"
  let ?ties = "\<lambda>(cs :: nat list) i. first_index perm (rows ! i)"
  let ?f = "\<lambda>p. (- int (snd (snd p)), ?ties (map snd rows) (fst p))"
  have "sort_key ?f (enumerate 0 rows) = sort_key (\<lambda>p. ?h (snd p)) (enumerate 0 rows)"
    by (rule sort_key_agree) (simp add: enumerate_nth)
  moreover have "map snd (sort_key (\<lambda>p. ?h (snd p)) (enumerate 0 rows)) =
      sort_key ?h (map snd (enumerate 0 rows))"
    by (rule map_sort_key_comp)
  ultimately have sd: "sort_desc ?ties rows = sort_key ?h rows"
    by (simp add: sort_desc_def)
  have pos: "sorted_wrt (\<lambda>a b. first_index perm a < first_index perm b) perm"
    using first_index_unique_sorted [of perm] assms(2) by (simp add: unique_distinct)
  have "sorted_wrt (\<lambda>a b. snd b \<le> snd a \<and> first_index perm a < first_index perm b) perm"
    using assms(4) pos unfolding counts_descend_def by (rule sorted_wrt_conj)
  then have "sorted_wrt (\<lambda>a b. ?h a < ?h b) perm"
    by (rule sorted_wrt_mono_rel [rotated]) (auto simp: less_prod_def)
  then have sp: "sorted_wrt (<) (map ?h perm)" by (simp add: sorted_wrt_map)
  have inj: "inj_on ?h (set rows)"
  proof (rule inj_onI)
    fix a b assume "a \<in> set rows" "b \<in> set rows" "?h a = ?h b"
    then have "a \<in> set perm" "b \<in> set perm" "first_index perm a = first_index perm b"
      using assms(3) by simp_all
    then show "a = b"
    proof (induction perm)
      case Nil
      then show ?case by simp
    next
      case (Cons x xs)
      then show ?case by (auto split: if_splits)
    qed
  qed
  have ss: "sorted_wrt (<) (map ?h (sort_key ?h rows))"
    using inj assms(1) by (simp add: strict_sorted_iff distinct_map)
  have "map ?h (sort_key ?h rows) = map ?h perm"
    using ss sp by (intro sorted_distinct_set_unique) (simp_all add: strict_sorted_iff assms(3))
  then have "sort_key ?h rows = perm"
    using inj assms(3) by (intro inj_on_map_eq_map [THEN iffD1, of ?h]) (auto simp: )
  with sd have "sort_desc ?ties rows = perm" by simp
  then show ?thesis by (rule exI [of "\<lambda>t. sort_desc t rows = perm"])
qed

section \<open>Ranked tables\<close>















section \<open>The hourly series\<close>

lemma dropna_opt_nonempty:
  "(dropna_opt xs \<noteq> []) = (\<exists>x \<in> set xs. x \<noteq> None)"
  by (induction xs rule: dropna_opt.induct) auto

lemma filter_ge_upto: "filter (\<lambda>i. k \<le> i) [lo..hi] = [max lo k..hi]"
  by (rule sorted_distinct_set_unique) (auto simp: sorted_wrt_filter)

lemma resample_size_eq:
  assumes "ts \<noteq> []"
  shows "resample_size freq ts =
    map (\<lambda>i. (i * freq, count_list (map (\<lambda>t. t div freq) ts) i))
      [Min (set (map (\<lambda>t. t div freq) ts)) .. Max (set (map (\<lambda>t. t div freq) ts))]"
proof -
  obtain t rest where ts: "ts = t # rest" using assms by (cases ts) auto
  show ?thesis
    unfolding resample_size_def ts
    by (simp add: Max.set_eq_fold Min.set_eq_fold del: set_simps)
qed

lemma fold_max_upto:
  assumes "lo \<le> hi" and "0 < (f::int)" and "map (\<lambda>i. (i * f, c i)) [lo..hi] = h # hs"
  shows "fold max (map fst hs) (fst h) = hi * f"
proof -
  have "fold max (map fst hs) (fst h) = Max (set (map fst (h # hs)))"
    by (simp add: Max.set_eq_fold del: set_simps)
  also have "set (map fst (h # hs)) = (\<lambda>i. i * f) ` {lo..hi}"
    unfolding assms(3) [symmetric] by (auto simp: image_iff)
  also have "Max ((\<lambda>i. i * f) ` {lo..hi}) = hi * f"
    using assms(1,2) by (intro Max_eqI) auto
  finally show ?thesis .
qed

lemma rs2_hourly_eq:
  assumes "\<exists>r \<in> set df. CreatedDateTimeUTC r \<noteq> None"
  shows "rs2_hourly df =
     map (\<lambda>i. (i * hour_ns, count_list (hour_buckets df) i))
       [max (Min (set (hour_buckets df))) (Max (set (hour_buckets df)) - 23)
        .. Max (set (hour_buckets df))]"
proof -
  let ?ts = "dropna_opt (map CreatedDateTimeUTC df)"
  let ?bs = "hour_buckets df"
  let ?lo = "Min (set ?bs)" and ?hi = "Max (set ?bs)"
  let ?row = "\<lambda>i. (i * hour_ns, count_list ?bs i)"
  have ne: "?ts \<noteq> []" using assms by (simp add: dropna_opt_nonempty)
  then have bne: "set ?bs \<noteq> {}" by (simp add: hour_buckets_def)
  have le: "?lo \<le> ?hi" using bne by (simp add: Min_le_iff) 
  have pos: "0 < hour_ns" by (simp add: hour_ns_def)
  have res: "resample_size hour_ns ?ts = map ?row [?lo..?hi]"
    using resample_size_eq [OF ne] by (simp add: hour_buckets_def)
  obtain h hs where hh: "map ?row [?lo..?hi] = h # hs"
    using le by (cases "map ?row [?lo..?hi]") auto
  have mx: "fold max (map fst hs) (fst h) = ?hi * hour_ns"
    by (rule fold_max_upto [OF le pos hh])
  have "rs2_hourly df = filter (\<lambda>row. fst row \<ge> ?hi * hour_ns - 23 * hour_ns) (map ?row [?lo..?hi])"
    using ne unfolding rs2_hourly_def Let_def res by (simp add: hh mx)
  also have "\<dots> = map ?row (filter (\<lambda>i. ?hi - 23 \<le> i) [?lo..?hi])"
  proof -
    have "\<And>i. (?hi * hour_ns - 23 * hour_ns \<le> i * hour_ns) = (?hi - 23 \<le> i)"
    proof -
      fix i
      have "?hi * hour_ns - 23 * hour_ns = (?hi - 23) * hour_ns" by (simp add: algebra_simps)
      then show "(?hi * hour_ns - 23 * hour_ns \<le> i * hour_ns) = (?hi - 23 \<le> i)"
        using pos by simp
    qed
    then show ?thesis by (simp add: filter_map comp_def)
  qed
  finally show ?thesis by (simp add: filter_ge_upto)
qed

text \<open>
  C3. When some timestamp parses, the hourly series of \<^verbatim>\<open>summarize\<close> is the run of
  consecutive hourly buckets that ends at the bucket of the latest timestamp in the data
  and starts 23 buckets earlier, or at the bucket of the earliest timestamp when that is
  later; each row counts the scans of its bucket. It has between 1 and 24 rows, and exactly
  the latest 24 buckets when the data spans at least 24 buckets (so for a span of 40).
\<close>

theorem C3_hourly_window:
  assumes "\<exists>r \<in> set df. CreatedDateTimeUTC r \<noteq> None"
  shows "let bs = hour_buckets df; hi = Max (set bs); lo = Min (set bs) in
     hourly (rs2_summarize ties df) =
       map (\<lambda>i. (i * hour_ns, count_list bs i)) [max lo (hi - 23) .. hi]
     \<and> 1 \<le> length (hourly (rs2_summarize ties df))
     \<and> length (hourly (rs2_summarize ties df)) \<le> 24
     \<and> (hi - lo \<ge> 23 \<longrightarrow>
          map fst (hourly (rs2_summarize ties df)) = map (\<lambda>i. i * hour_ns) [hi - 23 .. hi]
          \<and> length (hourly (rs2_summarize ties df)) = 24)"
proof -
  let ?bs = "hour_buckets df"
  have "dropna_opt (map CreatedDateTimeUTC df) \<noteq> []"
    using assms by (simp add: dropna_opt_nonempty)
  then have bne: "set ?bs \<noteq> {}" by (simp add: hour_buckets_def)
  have le: "Min (set ?bs) \<le> Max (set ?bs)" using bne by (simp add: Min_le_iff)
  have h: "hourly (rs2_summarize ties df) = rs2_hourly df" by (simp add: rs2_summarize_def)
  show ?thesis
    unfolding Let_def h rs2_hourly_eq [OF assms]
    using le by (auto simp: comp_def max_def)
qed

theorem C3_hourly_window_witness:
  "(\<exists>r \<in> set (rs2_load_data (map (\<lambda>t.
        \<lparr> CreatedDateTimeUTC = t, AccountId = NaN, VIN = NaN, State = NaN,
          Year = None, Mileage = None, TotalAbsCodes = None, TotalSrsCodes = None,
          Make = NaN, Model = NaN, MaintenancePartsCount = None,
          PredictedPartsCount = None, UsbProductId = None, MIL_DTC = NaN,
          MIL_Part_Name = NaN, ABS_Part_Name = NaN, SRS_Part_Name = NaN \<rparr>)
        [Some 0, None, Some (39 * hour_ns + 5)])). CreatedDateTimeUTC r \<noteq> None)
   \<and> map fst (hourly (rs2_summarize stable_ties (rs2_load_data (map (\<lambda>t.
        \<lparr> CreatedDateTimeUTC = t, AccountId = NaN, VIN = NaN, State = NaN,
          Year = None, Mileage = None, TotalAbsCodes = None, TotalSrsCodes = None,
          Make = NaN, Model = NaN, MaintenancePartsCount = None,
          PredictedPartsCount = None, UsbProductId = None, MIL_DTC = NaN,
          MIL_Part_Name = NaN, ABS_Part_Name = NaN, SRS_Part_Name = NaN \<rparr>)
        [Some 0, None, Some (39 * hour_ns + 5)]))))
     = map (\<lambda>i. i * hour_ns) [16 .. 39]
   \<and> length (hourly (rs2_summarize stable_ties (rs2_load_data (map (\<lambda>t.
        \<lparr> CreatedDateTimeUTC = t, AccountId = NaN, VIN = NaN, State = NaN,
          Year = None, Mileage = None, TotalAbsCodes = None, TotalSrsCodes = None,
          Make = NaN, Model = NaN, MaintenancePartsCount = None,
          PredictedPartsCount = None, UsbProductId = None, MIL_DTC = NaN,
          MIL_Part_Name = NaN, ABS_Part_Name = NaN, SRS_Part_Name = NaN \<rparr>)
        [Some 0, None, Some (39 * hour_ns + 5)])))) = 24"
  (is "?hyp \<and> ?a \<and> ?b")
proof -
  let ?df = "rs2_load_data (map (\<lambda>t.
        \<lparr> CreatedDateTimeUTC = t, AccountId = NaN, VIN = NaN, State = NaN,
          Year = None, Mileage = None, TotalAbsCodes = None, TotalSrsCodes = None,
          Make = NaN, Model = NaN, MaintenancePartsCount = None,
          PredictedPartsCount = None, UsbProductId = None, MIL_DTC = NaN,
          MIL_Part_Name = NaN, ABS_Part_Name = NaN, SRS_Part_Name = NaN \<rparr>)
        [Some 0, None, Some (39 * hour_ns + 5)])"
  have hyp: ?hyp by (simp add: rs2_load_data_def rs2_normalize_def)
  have hb: "hour_buckets ?df = [0, 39]" by code_simp
  have "?a \<and> ?b"
    using C3_hourly_window [OF hyp] unfolding hb Let_def by (simp add: comp_def)
  with hyp show ?thesis by simp
qed

section \<open>Multi-value explosion\<close>

lemma unique_snoc:
  "unique (ts @ [k]) = (if k \<in> set ts then unique ts else unique ts @ [k])"
  by (induction ts) auto

lemma counter_add_keys:
  "map fst (counter_add c k) = (if k \<in> set (map fst c) then map fst c else map fst c @ [k])"
  by (induction c k rule: counter_add.induct) auto

lemma counter_add_map_of:
  "map_of (counter_add c k) =
   (map_of c)(k \<mapsto> (case map_of c k of None \<Rightarrow> 1 | Some n \<Rightarrow> n + 1))"
  by (induction c k rule: counter_add.induct) (auto simp: fun_eq_iff)

lemma counts_tokens_add:
  assumes "counts_tokens c ts"
  shows "counts_tokens (counter_add c k) (ts @ [k])"
proof -
  have keys: "map fst c = unique ts"
    and vals: "\<And>k. map_of c k = (if k \<in> set ts then Some (count_list ts k) else None)"
    using assms by (simp_all add: counts_tokens_def)
  have "set (map fst c) = set ts" by (simp add: keys)
  then have "map fst (counter_add c k) = unique (ts @ [k])"
    by (simp add: counter_add_keys unique_snoc keys)
  moreover have "map_of (counter_add c k) k' =
      (if k' \<in> set (ts @ [k]) then Some (count_list (ts @ [k]) k') else None)" for k'
    by (simp add: counter_add_map_of vals)
  ultimately show ?thesis by (simp add: counts_tokens_def)
qed

lemma counts_tokens_parts:
  "counts_tokens c ts \<Longrightarrow>
   counts_tokens (fold count_part parts c)
     (ts @ filter (\<lambda>name. name \<noteq> []) (map strip parts))"
proof (induction parts arbitrary: c ts)
  case Nil
  then show ?case by simp
next
  case (Cons p parts)
  show ?case
  proof (cases "strip p = []")
    case True
    with Cons.IH [OF Cons.prems] show ?thesis by (simp add: count_part_def)
  next
    case False
    from Cons.IH [OF counts_tokens_add [OF Cons.prems, of "strip p"]] False
    show ?thesis by (simp add: count_part_def)
  qed
qed

lemma counts_tokens_cells:
  "counts_tokens c ts \<Longrightarrow>
   counts_tokens
     (fold (\<lambda>raw counter. fold count_part (split_on CHR '';'' raw) counter) raws c)
     (ts @ filter (\<lambda>name. name \<noteq> []) (map strip (concat (map (split_on CHR '';'') raws))))"
proof (induction raws arbitrary: c ts)
  case Nil
  then show ?case by simp
next
  case (Cons raw raws)
  from Cons.IH [OF counts_tokens_parts [OF Cons.prems, of "split_on CHR '';'' raw"]]
  show ?case by simp
qed

lemma explode_parts_counts: "counts_tokens (explode_parts series) (part_tokens series)"
proof -
  have "counts_tokens [] []" by (simp add: counts_tokens_def)
  from counts_tokens_cells [OF this, of "dropna series"]
  show ?thesis by (simp add: explode_parts_def part_tokens_def)
qed

text \<open>
  C7. \<^verbatim>\<open>explode_parts\<close> splits each cell that is not missing on the semicolon, trims
  each part, drops the empty parts and counts every distinct token over all rows: a name
  is a key of the counter exactly when it is a token, its value is the number of times the
  token occurs, and the keys are in order of first appearance. The single cell
  \<^verbatim>\<open>A; B ;B\<close> gives the counts A: 1, B: 2.
\<close>

theorem C7_explode_parts:
  "map_of (explode_parts series) name =
     (if name \<in> set (part_tokens series)
      then Some (count_list (part_tokens series) name) else None)
   \<and> map fst (explode_parts series) = unique (part_tokens series)
   \<and> explode_parts [Str ''A; B ;B''] = [(''A'', 1), (''B'', 2)]"
proof -
  have "explode_parts [Str ''A; B ;B''] = [(''A'', 1), (''B'', 2)]" by code_simp
  then show ?thesis
    using explode_parts_counts [of series] by (simp add: counts_tokens_def)
qed

theorem C7_explode_parts_witness:
  "part_tokens [Str ''A; B ;B'', NaN, Str '' ; B;;C ''] = [''A'', ''B'', ''B'', ''B'', ''C'']
   \<and> map_of (explode_parts [Str ''A; B ;B'', NaN, Str '' ; B;;C '']) ''B'' = Some 3
   \<and> map fst (explode_parts [Str ''A; B ;B'', NaN, Str '' ; B;;C '']) = [''A'', ''B'', ''C'']"
proof -
  have t: "part_tokens [Str ''A; B ;B'', NaN, Str '' ; B;;C ''] = [''A'', ''B'', ''B'', ''B'', ''C'']"
    by code_simp
  show ?thesis
    using C7_explode_parts [of "[Str ''A; B ;B'', NaN, Str '' ; B;;C '']" "''B''"]
    unfolding t by simp
qed

section \<open>Counts and ratios\<close>

lemma count_list_map_filter:
  "count_list (map f xs) y = length (filter (\<lambda>x. f x = y) xs)"
  by (induction xs) auto

lemma dropna_eq_filter:
  "count_list (dropna cs) s = length (filter (\<lambda>c. c = Str s) cs)"
  by (induction cs rule: dropna.induct) auto

lemma count_dropna_map:
  "count_list (dropna (map f xs)) s = length (filter (\<lambda>x. f x = Str s) xs)"
  by (simp add: dropna_eq_filter comp_def)

lemma set_dropna: "set (dropna cs) = {s. Str s \<in> set cs}"
  by (induction cs rule: dropna.induct) auto

lemma length_dropna: "length (dropna cs) \<le> length cs"
  by (induction cs rule: dropna.induct) auto

lemma set_dropna2: "set (dropna2 ps) = {(a, b). (Str a, Str b) \<in> set ps}"
  by (induction ps rule: dropna2.induct) auto

lemma fst_set_groupby_size: "fst ` set (groupby_size ks) = set ks"
  by (metis groupby_size_keys set_map set_remdups set_sort)

lemma in_groupby_size:
  "(k, n) \<in> set (groupby_size ks) \<longleftrightarrow> k \<in> set ks \<and> n = count_list ks k"
  by (auto simp: groupby_size_def)

lemma length_groupby_size: "length (groupby_size ks) = card (set ks)"
  by (simp add: groupby_size_def length_remdups_card_conv)

lemma sum_groupby_size: "sum_list (map snd (groupby_size ks)) = length ks"
proof -
  have "sum_list (map snd (groupby_size ks)) = sum_list (map (count_list ks) (sort (remdups ks)))"
    by (simp add: groupby_size_def comp_def)
  also have "\<dots> = sum (count_list ks) (set ks)"
    by (subst sum_list_distinct_conv_sum_set) simp_all
  also have "\<dots> = length ks"
    by (rule sum_count_set) simp_all
  finally show ?thesis .
qed

lemma reindex0_groupby_size: "reindex0 (groupby_size ks) k = count_list ks k"
  by (simp add: reindex0_def map_of_groupby_size count_list_0_iff)

lemma isin_iff: "isin c vs \<longleftrightarrow> (\<exists>s. c = Str s \<and> s \<in> set vs)"
  by (cases c) auto


lemma length_filter_conj_le:
  "length (filter (\<lambda>x. P x \<and> Q x) xs) \<le> length (filter P xs)"
  by (induction xs) auto

lemma ratio_unit:
  "a \<le> b \<Longrightarrow> b \<noteq> 0 \<Longrightarrow> 0 \<le> (of_nat a / of_nat b :: rat) \<and> (of_nat a / of_nat b :: rat) \<le> 1"
  by (simp add: divide_le_eq_1)

lemma pd_div_unit:
  "a \<le> b \<Longrightarrow> b \<noteq> 0 \<Longrightarrow> \<exists>v. pd_div a b = Some v \<and> 0 \<le> v \<and> v \<le> 1"
  using ratio_unit [of a b] by (simp add: pd_div_def)

lemma rs2_repeat_accounts_subset:
  "set (rs2_repeat_accounts df) \<subseteq> set (dropna (map UserId df))"
proof
  fix u assume "u \<in> set (rs2_repeat_accounts df)"
  then obtain pc where "pc \<in> set (rs2_repeat_pairs df)" and u: "u = fst (fst pc)"
    by (auto simp: rs2_repeat_accounts_def)
  then have "fst pc \<in> set (dropna2 (map (\<lambda>r. (UserId r, VIN r)) df))"
    unfolding rs2_repeat_pairs_def using fst_set_groupby_size by blast
  then show "u \<in> set (dropna (map UserId df))"
    by (auto simp: u set_dropna2 set_dropna)
qed

lemma rs2_repeat_le: "rs2_repeat_user_count df \<le> rs2_total_scanned_users ties df"
proof -
  have "rs2_repeat_user_count df = card (set (rs2_repeat_accounts df))"
    by (simp add: rs2_repeat_user_count_def rs2_repeat_accounts_def length_unique)
  also have "\<dots> \<le> card (set (dropna (map UserId df)))"
    by (rule card_mono) (simp_all add: rs2_repeat_accounts_subset)
  also have "\<dots> = rs2_total_scanned_users ties df"
    by (simp add: rs2_total_scanned_users_def rs2_user_counts_def length_value_counts)
  finally show ?thesis .
qed

lemma sr_repeat_scans_le: "sr_repeat_user_scans df \<le> length df"
proof -
  have "sr_repeat_user_scans df \<le> sum_list (map snd (sr_user_counts df))"
    unfolding sr_repeat_user_scans_def sr_repeat_user_counts_def
    by (rule sum_list_filter_le_nat)
  also have "\<dots> = length (dropna (map AccountKey df))"
    by (simp add: sr_user_counts_def sum_groupby_size)
  also have "\<dots> \<le> length df"
    using length_dropna [of "map AccountKey df"] by simp
  finally show ?thesis .
qed

lemma sr_repeat_users_le: "sr_repeat_users df \<le> sr_unique_users df"
  by (simp add: sr_repeat_users_def sr_unique_users_def sr_repeat_user_counts_def)

lemma rs2_share_unit:
  "0 \<le> rs2_repeat_user_share ties df \<and> rs2_repeat_user_share ties df \<le> 1"
  using ratio_unit [OF rs2_repeat_le [of df ties]] by (simp add: rs2_repeat_user_share_def)

lemma sr_scan_share_unit:
  "0 \<le> sr_repeat_user_scan_share df \<and> sr_repeat_user_scan_share df \<le> 1"
  using ratio_unit [OF sr_repeat_scans_le [of df]] by (simp add: sr_repeat_user_scan_share_def)

lemma sr_user_share_unit:
  "0 \<le> sr_repeat_user_share df \<and> sr_repeat_user_share df \<le> 1"
  using ratio_unit [OF sr_repeat_users_le [of df]] by (simp add: sr_repeat_user_share_def)

lemma in_sr_state_counts:
  "(s, n) \<in> set (sr_state_counts ties df) \<longleftrightarrow>
   (\<exists>r \<in> set df. State r = Str s) \<and> n = length (filter (\<lambda>r. State r = Str s) df)"
  by (force simp: sr_state_counts_def in_groupby_size set_dropna count_dropna_map)

lemma sr_repeat_state_count:
  "reindex0 (sr_repeat_state_counts df) s =
   length (filter (\<lambda>r. State r = Str s \<and> isin (AccountKey r) (sr_repeat_user_ids df)) df)"
  by (simp add: sr_repeat_state_counts_def reindex0_groupby_size count_dropna_map conj_commute)

lemma sr_state_summary_row:
  assumes "row \<in> set (sr_state_summary ties df)"
  shows "(\<exists>r \<in> set df. State r = Str (ss_state row))
    \<and> total_scans row = length (filter (\<lambda>r. State r = Str (ss_state row)) df)
    \<and> repeat_scans row = length (filter (\<lambda>r. State r = Str (ss_state row)
          \<and> isin (AccountKey r) (sr_repeat_user_ids df)) df)
    \<and> repeat_scan_share row = pd_div (repeat_scans row) (total_scans row)
    \<and> scan_share row = pd_div (total_scans row) (if length df \<noteq> 0 then length df else 1)"
proof -
  from assms obtain s n where sn: "(s, n) \<in> set (sr_state_counts ties df)"
    and row: "row = \<lparr> ss_state = s, total_scans = n,
          repeat_scans = reindex0 (sr_repeat_state_counts df) s,
          repeat_scan_share = pd_div (reindex0 (sr_repeat_state_counts df) s) n,
          scan_share = pd_div n (if length df \<noteq> 0 then length df else 1) \<rparr>"
    by (auto simp: sr_state_summary_def Let_def)
  from sn show ?thesis unfolding row
    by (simp add: in_sr_state_counts sr_repeat_state_count)
qed

lemma sr_state_summary_unit:
  assumes "row \<in> set (sr_state_summary ties df)"
  shows "total_scans row \<noteq> 0
    \<and> (\<exists>v. repeat_scan_share row = Some v \<and> 0 \<le> v \<and> v \<le> 1)
    \<and> (\<exists>v. scan_share row = Some v \<and> 0 \<le> v \<and> v \<le> 1)"
proof -
  let ?s = "ss_state row"
  note r = sr_state_summary_row [OF assms]
  from r have ex: "\<exists>r \<in> set df. State r = Str ?s" by simp
  then have pos: "total_scans row \<noteq> 0"
    using r by (auto simp: filter_empty_conv)
  have le1: "repeat_scans row \<le> total_scans row"
  proof -
    have "length (filter (\<lambda>r. State r = Str ?s \<and> isin (AccountKey r) (sr_repeat_user_ids df)) df)
        \<le> length (filter (\<lambda>r. State r = Str ?s) df)"
      by (rule length_filter_conj_le)
    then show ?thesis using r by simp
  qed
  have le2: "total_scans row \<le> length df" using r by simp
  have ne: "df \<noteq> []" using ex by auto
  show ?thesis
    using pd_div_unit [OF le1 pos] pd_div_unit [OF le2] pos ne r by simp
qed


lemma set_with_state:
  "set (with_state df) = {(s, k). \<exists>r \<in> set df. State r = Str s \<and> AccountKey r = k}"
  by (induction df) (auto split: cell.splits)

lemma distinct_sr_repeat_user_ids: "distinct (sr_repeat_user_ids df)"
  unfolding sr_repeat_user_ids_def sr_repeat_user_counts_def sr_user_counts_def
  by (rule distinct_map_filter) (rule groupby_size_distinct)

lemma sr_repeat_users_length: "sr_repeat_users df = length (sr_repeat_user_ids df)"
  by (simp add: sr_repeat_users_def sr_repeat_user_ids_def)

lemma sr_repeat_users_by_state_count:
  "reindex0 (sr_repeat_users_by_state df) s =
   card {k. (\<exists>r \<in> set df. State r = Str s \<and> AccountKey r = k)
            \<and> isin k (sr_repeat_user_ids df)}"
proof -
  let ?ids = "sr_repeat_user_ids df"
  let ?L = "filter (\<lambda>p. fst p = s) (filter (\<lambda>p. isin (snd p) ?ids) (unique (with_state df)))"
  have "reindex0 (sr_repeat_users_by_state df) s = length ?L"
    by (simp add: sr_repeat_users_by_state_def sr_user_state_def reindex0_groupby_size
        count_list_map_filter)
  also have "\<dots> = length (map snd ?L)" by simp
  also have "\<dots> = card (set (map snd ?L))"
  proof -
    have "inj_on snd (set ?L)" by (auto simp: inj_on_def)
    then have "distinct (map snd ?L)" by (simp add: distinct_map)
    then show ?thesis by (simp add: distinct_card del: set_map)
  qed
  also have "set (map snd ?L) =
      {k. (\<exists>r \<in> set df. State r = Str s \<and> AccountKey r = k) \<and> isin k ?ids}"
    by (auto simp: set_with_state image_iff)
  finally show ?thesis .
qed

lemma sr_repeat_users_by_state_le:
  "reindex0 (sr_repeat_users_by_state df) s \<le> sr_repeat_users df"
proof -
  let ?ids = "sr_repeat_user_ids df"
  have "{k. (\<exists>r \<in> set df. State r = Str s \<and> AccountKey r = k) \<and> isin k ?ids}
      \<subseteq> Str ` set ?ids"
    by (auto simp: isin_iff)
  then have "card {k. (\<exists>r \<in> set df. State r = Str s \<and> AccountKey r = k) \<and> isin k ?ids}
      \<le> card (Str ` set ?ids)"
    by (intro card_mono) simp_all
  also have "\<dots> \<le> card (set ?ids)" by (rule card_image_le) simp
  also have "\<dots> \<le> length ?ids" by (rule card_length)
  finally show ?thesis
    by (simp add: sr_repeat_users_by_state_count sr_repeat_users_length)
qed

lemma align_div_disjoint_labels:
  "v \<in> set (align_div_fillna0 (zip (map Pos ns) rus) (map (\<lambda>s. (Key s, f s)) idx))
   \<Longrightarrow> v = 0"
proof -
  have "map_of (map (\<lambda>s. (Key s, f s)) idx) (Pos i) = None" for i
    by (auto simp: map_of_eq_None_iff)
  moreover assume "v \<in> set (align_div_fillna0 (zip (map Pos ns) rus) (map (\<lambda>s. (Key s, f s)) idx))"
  ultimately show ?thesis
    by (auto simp: align_div_fillna0_def dest!: set_zip_leftD)
qed

lemma zip_map_mem:
  "(s, ru, share) \<in> set (zip idx (zip (map g idx) ins))
   \<Longrightarrow> s \<in> set idx \<and> ru = g s \<and> share \<in> set ins"
  by (auto simp: set_zip)

lemma sr_repeat_user_state_row:
  assumes "row \<in> set (sr_repeat_user_state ties df)"
  shows "(\<exists>r \<in> set df. State r = Str (ru_state row))
    \<and> repeat_users row = reindex0 (sr_repeat_users_by_state df) (ru_state row)
    \<and> repeat_user_share_all_repeat row =
        pd_div (repeat_users row) (if sr_repeat_users df \<noteq> 0 then sr_repeat_users df else 1)
    \<and> repeat_user_share_in_state row = 0"
proof -
  let ?idx = "map fst (sr_state_counts ties df)"
  let ?rus = "map (reindex0 (sr_repeat_users_by_state df)) ?idx"
  let ?ins = "align_div_fillna0 (zip (map Pos [0 ..< length ?idx]) ?rus)
            (map (\<lambda>s. (Key s, reindex0 (sr_unique_users_by_state df) s)) ?idx)"
  from assms obtain s ru share where mem: "(s, ru, share) \<in> set (zip ?idx (zip ?rus ?ins))"
    and row: "row = \<lparr> ru_state = s, repeat_users = ru,
             repeat_user_share_all_repeat =
               pd_div ru (if sr_repeat_users df \<noteq> 0 then sr_repeat_users df else 1),
             repeat_user_share_in_state = share \<rparr>"
    by (auto simp: sr_repeat_user_state_def Let_def)
  from zip_map_mem [OF mem]
  have s: "s \<in> set ?idx" and ru: "ru = reindex0 (sr_repeat_users_by_state df) s"
    and "share \<in> set ?ins"
    by simp_all
  then have share: "share = 0" using align_div_disjoint_labels by blast
  from s obtain n where "(s, n) \<in> set (sr_state_counts ties df)" by auto
  then have "\<exists>r \<in> set df. State r = Str s" by (simp add: in_sr_state_counts)
  then show ?thesis unfolding row using ru share by simp
qed

lemma sr_repeat_user_state_unit:
  assumes "row \<in> set (sr_repeat_user_state ties df)"
  shows "(\<exists>v. repeat_user_share_all_repeat row = Some v \<and> 0 \<le> v \<and> v \<le> 1
            \<and> (sr_repeat_users df = 0 \<longrightarrow> v = 0))
    \<and> 0 \<le> repeat_user_share_in_state row \<and> repeat_user_share_in_state row \<le> 1"
proof -
  note r = sr_repeat_user_state_row [OF assms]
  have le: "repeat_users row \<le> sr_repeat_users df"
    using r sr_repeat_users_by_state_le [of df "ru_state row"] by simp
  show ?thesis
  proof (cases "sr_repeat_users df = 0")
    case True
    with le have "repeat_users row = 0" by simp
    with True r show ?thesis by (simp add: pd_div_def)
  next
    case False
    with pd_div_unit [OF le False] r show ?thesis by simp
  qed
qed


lemma rs2_card_values:
  "card_value (cards (rs2_summarize ties df)) ''Total scans'' = Some (of_nat (length df))"
  "card_value (cards (rs2_summarize ties df)) ''Total scanned users'' =
     Some (of_nat (rs2_total_scanned_users ties df))"
  "card_value (cards (rs2_summarize ties df)) ''Repeat users'' =
     Some (of_nat (rs2_repeat_user_count df))"
  "card_value (cards (rs2_summarize ties df)) ''Repeat user share'' =
     Some (rs2_repeat_user_share ties df)"
  by (simp_all add: rs2_summarize_def rs2_cards_def)

lemma sr_card_values:
  "card_value (sr_summary ties df) ''Total scans'' = Some (of_nat (length df))"
  "card_value (sr_summary ties df) ''Repeat-user scans'' = Some (of_nat (sr_repeat_user_scans df))"
  "card_value (sr_summary ties df) ''Repeat-user scan share'' = Some (sr_repeat_user_scan_share df)"
  "card_value (sr_summary ties df) ''Unique users'' = Some (of_nat (sr_unique_users df))"
  "card_value (sr_summary ties df) ''Repeat users'' = Some (of_nat (sr_repeat_users df))"
  "card_value (sr_summary ties df) ''Repeat-user share'' = Some (sr_repeat_user_share df)"
  "card_value (sr_summary ties df) ''Unique VINs'' = Some (of_nat (length (sr_vin_counts ties df)))"
  "card_value (sr_summary ties df) ''VINs scanned multiple times'' =
     Some (of_nat (length (sr_repeat_vins ties df)))"
  by (simp_all add: sr_summary_def)

lemma sr_summarize_Inr:
  assumes "sr_summarize all_nat ties df = Inr (summary, state_summary, repeat_user_state, scans_by_day)"
  shows "summary = sr_summary ties df" and "state_summary = sr_state_summary ties df"
    and "repeat_user_state = sr_repeat_user_state ties df"
  using assms by (auto simp: sr_summarize_def split: sum.splits)

lemma sr_summarize_returns:
  assumes "df = [] \<or> (\<exists>r \<in> set df. CreatedDateTimeUTC r \<noteq> None)"
  shows "sr_summarize all_nat ties df =
     Inr (sr_summary ties df, sr_state_summary ties df, sr_repeat_user_state ties df,
          resample_size day_ns (dropna_opt (map CreatedDateTimeUTC df)))"
proof -
  have "\<not> (map CreatedDateTimeUTC df \<noteq> [] \<and> dropna_opt (map CreatedDateTimeUTC df) = [])"
    using assms dropna_opt_nonempty [of "map CreatedDateTimeUTC df"] by auto
  then show ?thesis by (auto simp: sr_summarize_def sr_scans_by_day_def Let_def)
qed

text \<open>
  C1. Every ratio that \<^verbatim>\<open>summarize\<close> produces lies between 0 and 1 and is a number
  (never an exception, inf or NaN): the repeat-user share of rs2_dr_dashboard, and in
  scan_records_dashboard the repeat-user scan share, the repeat-user share, and per state
  the repeat-scan share, the scan share and the two repeat-user shares. A ratio whose
  divisor is zero is 0; the per-state repeat-scan share divides by the number of scans of
  a state that has scans, which is never zero.
\<close>

theorem C1_ratios_in_unit_interval:
  assumes "sr_summarize all_nat ties sdf =
             Inr (summary, state_summary, repeat_user_state, scans_by_day)"
  shows "(\<exists>v. card_value (cards (rs2_summarize ties df)) ''Repeat user share'' = Some v
            \<and> 0 \<le> v \<and> v \<le> 1 \<and> (rs2_total_scanned_users ties df = 0 \<longrightarrow> v = 0))
    \<and> (\<exists>v. card_value summary ''Repeat-user scan share'' = Some v
            \<and> 0 \<le> v \<and> v \<le> 1 \<and> (length sdf = 0 \<longrightarrow> v = 0))
    \<and> (\<exists>v. card_value summary ''Repeat-user share'' = Some v
            \<and> 0 \<le> v \<and> v \<le> 1 \<and> (sr_unique_users sdf = 0 \<longrightarrow> v = 0))
    \<and> (\<forall>row \<in> set state_summary.
          total_scans row \<noteq> 0
          \<and> (\<exists>v. repeat_scan_share row = Some v \<and> 0 \<le> v \<and> v \<le> 1)
          \<and> (\<exists>v. scan_share row = Some v \<and> 0 \<le> v \<and> v \<le> 1))
    \<and> (\<forall>row \<in> set repeat_user_state.
          (\<exists>v. repeat_user_share_all_repeat row = Some v \<and> 0 \<le> v \<and> v \<le> 1
                \<and> (sr_repeat_users sdf = 0 \<longrightarrow> v = 0))
          \<and> 0 \<le> repeat_user_share_in_state row \<and> repeat_user_share_in_state row \<le> 1)"
proof -
  note eqs = sr_summarize_Inr [OF assms]
  have a: "\<exists>v. card_value (cards (rs2_summarize ties df)) ''Repeat user share'' = Some v
            \<and> 0 \<le> v \<and> v \<le> 1 \<and> (rs2_total_scanned_users ties df = 0 \<longrightarrow> v = 0)"
    using rs2_share_unit [of ties df] by (simp add: rs2_card_values rs2_repeat_user_share_def)
  have b: "\<exists>v. card_value summary ''Repeat-user scan share'' = Some v
            \<and> 0 \<le> v \<and> v \<le> 1 \<and> (length sdf = 0 \<longrightarrow> v = 0)"
    using sr_scan_share_unit [of sdf]
    by (simp add: eqs sr_card_values sr_repeat_user_scan_share_def)
  have c: "\<exists>v. card_value summary ''Repeat-user share'' = Some v
            \<and> 0 \<le> v \<and> v \<le> 1 \<and> (sr_unique_users sdf = 0 \<longrightarrow> v = 0)"
    using sr_user_share_unit [of sdf]
    by (simp add: eqs sr_card_values sr_repeat_user_share_def)
  have d: "\<forall>row \<in> set state_summary.
          total_scans row \<noteq> 0
          \<and> (\<exists>v. repeat_scan_share row = Some v \<and> 0 \<le> v \<and> v \<le> 1)
          \<and> (\<exists>v. scan_share row = Some v \<and> 0 \<le> v \<and> v \<le> 1)"
    unfolding eqs using sr_state_summary_unit by blast
  have e: "\<forall>row \<in> set repeat_user_state.
          (\<exists>v. repeat_user_share_all_repeat row = Some v \<and> 0 \<le> v \<and> v \<le> 1
                \<and> (sr_repeat_users sdf = 0 \<longrightarrow> v = 0))
          \<and> 0 \<le> repeat_user_share_in_state row \<and> repeat_user_share_in_state row \<le> 1"
    unfolding eqs using sr_repeat_user_state_unit by blast
  from a b c d e show ?thesis by blast
qed

theorem C1_ratios_in_unit_interval_witness:
  "sr_summarize (Inl ResampleError) stable_ties (sr_load_data
      [ \<lparr> CreatedDateTimeUTC = Some 0, AccountId = Str ''u1'', VIN = Str ''V1'',
          State = Str '' ca '', Email = NaN \<rparr>,
        \<lparr> CreatedDateTimeUTC = Some 5, AccountId = Str ''u1'', VIN = Str ''V1'',
          State = Str ''CA'', Email = NaN \<rparr>,
        \<lparr> CreatedDateTimeUTC = None, AccountId = Str ''u2'', VIN = NaN,
          State = Str ''tx'', Email = NaN \<rparr> ])
   = Inr ([ \<lparr> label = ''Total scans'', mvalue = 3,
         description = ''All scan events in the dataset.'', kind = KCount \<rparr>,
       \<lparr> label = ''Repeat-user scans'', mvalue = 2,
         description = ''Scan events coming from repeat users.'', kind = KCount \<rparr>,
       \<lparr> label = ''Repeat-user scan share'', mvalue = 2 / 3,
         description = ''Share of total scans that came from repeat users.'',
         kind = KPercent \<rparr>,
       \<lparr> label = ''Unique users'', mvalue = 2,
         description =
           ''Distinct users (AccountId fallback to Email) with at least one scan.'',
         kind = KCount \<rparr>,
       \<lparr> label = ''Repeat users'', mvalue = 1,
         description = ''Users with more than one scan overall.'', kind = KCount \<rparr>,
       \<lparr> label = ''Repeat-user share'', mvalue = 1 / 2,
         description = ''Share of users who are repeat users (scanned >1).'',
         kind = KPercent \<rparr>,
       \<lparr> label = ''Unique VINs'', mvalue = 2,
         description = ''Distinct VINs scanned at least once.'', kind = KCount \<rparr>,
       \<lparr> label = ''VINs scanned multiple times'', mvalue = 1,
         description = ''VINs with more than one scan.'', kind = KCount \<rparr> ],
      [ \<lparr> ss_state = ''CA'', total_scans = 2, repeat_scans = 2,
          repeat_scan_share = Some 1, scan_share = Some (2 / 3) \<rparr>,
        \<lparr> ss_state = ''TX'', total_scans = 1, repeat_scans = 0,
          repeat_scan_share = Some 0, scan_share = Some (1 / 3) \<rparr> ],
      [ \<lparr> ru_state = ''CA'', repeat_users = 1, repeat_user_share_all_repeat = Some 1,
          repeat_user_share_in_state = 0 \<rparr>,
        \<lparr> ru_state = ''TX'', repeat_users = 0, repeat_user_share_all_repeat = Some 0,
          repeat_user_share_in_state = 0 \<rparr> ],
      [(0, 2)])
   \<and> card_value (cards (rs2_summarize stable_ties ([] :: rs2_row list))) ''Repeat user share'' = Some 0"
  (is "?eq \<and> ?v")
proof -
  have eq: ?eq by code_simp
  have v: ?v by code_simp
  from C1_ratios_in_unit_interval [OF eq, of "[] :: rs2_row list"]
  have "\<exists>x. card_value (cards (rs2_summarize stable_ties ([] :: rs2_row list))) ''Repeat user share''
          = Some x \<and> 0 \<le> x \<and> x \<le> 1"
    by blast
  with eq v show ?thesis by blast
qed

section \<open>Totals, repeat counts and the empty input\<close>

text \<open>
  C5. The card Total scans is the number of records of the frame, which is the number of
  rows read (normalization neither drops nor adds a record). The repeat counts never exceed
  their totals: in rs2_dr_dashboard Repeat users is at most Total scanned users; in
  scan_records_dashboard Repeat users is at most Unique users and Repeat-user scans is at
  most Total scans.
\<close>

theorem C5_totals_and_repeat_counts:
  assumes "sr_summarize all_nat ties sdf =
             Inr (summary, state_summary, repeat_user_state, scans_by_day)"
  shows "card_value (cards (rs2_summarize ties df)) ''Total scans'' = Some (of_nat (length df))
    \<and> length (rs2_load_data rows) = length rows
    \<and> (\<exists>r t. card_value (cards (rs2_summarize ties df)) ''Repeat users'' = Some (of_nat r)
          \<and> card_value (cards (rs2_summarize ties df)) ''Total scanned users'' = Some (of_nat t)
          \<and> r \<le> t)
    \<and> card_value summary ''Total scans'' = Some (of_nat (length sdf))
    \<and> length (sr_load_data srows) = length srows
    \<and> (\<exists>r u. card_value summary ''Repeat users'' = Some (of_nat r)
          \<and> card_value summary ''Unique users'' = Some (of_nat u)
          \<and> r \<le> u)
    \<and> (\<exists>s t. card_value summary ''Repeat-user scans'' = Some (of_nat s)
          \<and> card_value summary ''Total scans'' = Some (of_nat t)
          \<and> s \<le> t)"
proof -
  note eqs = sr_summarize_Inr [OF assms]
  have a: "\<exists>r t. card_value (cards (rs2_summarize ties df)) ''Repeat users'' = Some (of_nat r)
          \<and> card_value (cards (rs2_summarize ties df)) ''Total scanned users'' = Some (of_nat t)
          \<and> r \<le> t"
    using rs2_repeat_le [of df ties] rs2_card_values(2,3) [of ties df] by blast
  have b: "\<exists>r u. card_value summary ''Repeat users'' = Some (of_nat r)
          \<and> card_value summary ''Unique users'' = Some (of_nat u)
          \<and> r \<le> u"
    unfolding eqs using sr_repeat_users_le [of sdf] sr_card_values(4,5) [of ties sdf] by blast
  have c: "\<exists>s t. card_value summary ''Repeat-user scans'' = Some (of_nat s)
          \<and> card_value summary ''Total scans'' = Some (of_nat t)
          \<and> s \<le> t"
    unfolding eqs using sr_repeat_scans_le [of sdf] sr_card_values(1,2) [of ties sdf] by blast
  have d: "card_value summary ''Total scans'' = Some (of_nat (length sdf))"
    unfolding eqs by (rule sr_card_values)
  show ?thesis
    using a b c d by (simp add: rs2_card_values rs2_load_data_def sr_load_data_def)
qed

theorem C5_totals_and_repeat_counts_witness:
  "sr_summarize (Inl ResampleError) stable_ties (sr_load_data
      [ \<lparr> CreatedDateTimeUTC = Some 0, AccountId = Str ''u1'', VIN = Str ''V1'',
          State = Str '' ca '', Email = NaN \<rparr>,
        \<lparr> CreatedDateTimeUTC = Some 5, AccountId = Str ''u1'', VIN = Str ''V1'',
          State = Str ''CA'', Email = NaN \<rparr>,
        \<lparr> CreatedDateTimeUTC = None, AccountId = Str ''u2'', VIN = NaN,
          State = Str ''tx'', Email = NaN \<rparr> ])
   = Inr (sr_summary stable_ties (sr_load_data
      [ \<lparr> CreatedDateTimeUTC = Some 0, AccountId = Str ''u1'', VIN = Str ''V1'',
          State = Str '' ca '', Email = NaN \<rparr>,
        \<lparr> CreatedDateTimeUTC = Some 5, AccountId = Str ''u1'', VIN = Str ''V1'',
          State = Str ''CA'', Email = NaN \<rparr>,
        \<lparr> CreatedDateTimeUTC = None, AccountId = Str ''u2'', VIN = NaN,
          State = Str ''tx'', Email = NaN \<rparr> ]),
      sr_state_summary stable_ties (sr_load_data
      [ \<lparr> CreatedDateTimeUTC = Some 0, AccountId = Str ''u1'', VIN = Str ''V1'',
          State = Str '' ca '', Email = NaN \<rparr>,
        \<lparr> CreatedDateTimeUTC = Some 5, AccountId = Str ''u1'', VIN = Str ''V1'',
          State = Str ''CA'', Email = NaN \<rparr>,
        \<lparr> CreatedDateTimeUTC = None, AccountId = Str ''u2'', VIN = NaN,
          State = Str ''tx'', Email = NaN \<rparr> ]),
      sr_repeat_user_state stable_ties (sr_load_data
      [ \<lparr> CreatedDateTimeUTC = Some 0, AccountId = Str ''u1'', VIN = Str ''V1'',
          State = Str '' ca '', Email = NaN \<rparr>,
        \<lparr> CreatedDateTimeUTC = Some 5, AccountId = Str ''u1'', VIN = Str ''V1'',
          State = Str ''CA'', Email = NaN \<rparr>,
        \<lparr> CreatedDateTimeUTC = None, AccountId = Str ''u2'', VIN = NaN,
          State = Str ''tx'', Email = NaN \<rparr> ]),
      [(0, 2)])
   \<and> card_value (sr_summary stable_ties (sr_load_data
      [ \<lparr> CreatedDateTimeUTC = Some 0, AccountId = Str ''u1'', VIN = Str ''V1'',
          State = Str '' ca '', Email = NaN \<rparr>,
        \<lparr> CreatedDateTimeUTC = Some 5, AccountId = Str ''u1'', VIN = Str ''V1'',
          State = Str ''CA'', Email = NaN \<rparr>,
        \<lparr> CreatedDateTimeUTC = None, AccountId = Str ''u2'', VIN = NaN,
          State = Str ''tx'', Email = NaN \<rparr> ])) ''Total scans'' = Some 3
   \<and> card_value (cards (rs2_summarize stable_ties ([] :: rs2_row list))) ''Total scans'' = Some 0"
  (is "?eq \<and> ?a \<and> ?b")
proof -
  have eq: ?eq by code_simp
  from C5_totals_and_repeat_counts [OF eq, of "[] :: rs2_row list" "[]" "[]"]
  have "?a \<and> ?b" by (simp add: sr_load_data_def)
  with eq show ?thesis by blast
qed

text \<open>
  C9. For an input without data rows both scripts return: every card has the value 0 (the
  counts, the means and the shares), the mean of a column that is empty or all null is 0,
  and every table and series is empty.
\<close>

theorem C9_zero_rows:
  "map mvalue (cards (rs2_summarize ties (rs2_load_data []))) = replicate 11 0
   \<and> top_vehicles (rs2_summarize ties (rs2_load_data [])) = []
   \<and> top_usb (rs2_summarize ties (rs2_load_data [])) = []
   \<and> mil_dtc (rs2_summarize ties (rs2_load_data [])) = []
   \<and> abs_parts (rs2_summarize ties (rs2_load_data [])) = []
   \<and> srs_parts (rs2_summarize ties (rs2_load_data [])) = []
   \<and> scans_by_state (rs2_summarize ties (rs2_load_data [])) = []
   \<and> top_states (rs2_summarize ties (rs2_load_data [])) = []
   \<and> repeat_users_by_state (rs2_summarize ties (rs2_load_data [])) = []
   \<and> hourly (rs2_summarize ties (rs2_load_data [])) = []
   \<and> safe_mean (replicate n None) = 0
   \<and> (\<exists>summary. sr_summarize all_nat ties (sr_load_data []) = Inr (summary, [], [], [])
         \<and> map mvalue summary = replicate 8 0)
   \<and> sr_top_states [] = []"
proof -
  have m: "dropna_opt (replicate n None) = ([] :: rat list)"
    by (induction n) simp_all
  have s: "sr_summarize all_nat ties (sr_load_data []) = Inr (sr_summary ties [], [], [], [])"
    by (simp add: sr_summarize_def sr_scans_by_day_def sr_load_data_def resample_size_def
        sr_state_summary_def sr_state_counts_def sr_repeat_user_state_def groupby_size_def
        sort_desc_def align_div_fillna0_def)
  have v: "map mvalue (sr_summary ties []) = replicate 8 0"
    by code_simp
  have r: "map mvalue (cards (rs2_summarize ties (rs2_load_data []))) = replicate 11 0"
    by code_simp
  have t: "top_vehicles (rs2_summarize ties (rs2_load_data [])) = []
   \<and> top_usb (rs2_summarize ties (rs2_load_data [])) = []
   \<and> mil_dtc (rs2_summarize ties (rs2_load_data [])) = []
   \<and> abs_parts (rs2_summarize ties (rs2_load_data [])) = []
   \<and> srs_parts (rs2_summarize ties (rs2_load_data [])) = []
   \<and> scans_by_state (rs2_summarize ties (rs2_load_data [])) = []
   \<and> top_states (rs2_summarize ties (rs2_load_data [])) = []
   \<and> repeat_users_by_state (rs2_summarize ties (rs2_load_data [])) = []
   \<and> hourly (rs2_summarize ties (rs2_load_data [])) = []"
    by code_simp
  have u: "sr_top_states [] = []" by (simp add: sr_top_states_def)
  show ?thesis using r t s v u by (simp add: safe_mean_def m)
qed

theorem C9_zero_rows_witness:
  "safe_mean [None, None, None] = 0
   \<and> (\<exists>summary. sr_summarize (Inl ResampleError) stable_ties (sr_load_data []) = Inr (summary, [], [], [])
         \<and> map mvalue summary = [0, 0, 0, 0, 0, 0, 0, 0])"
  using C9_zero_rows [of stable_ties 3 "Inl ResampleError"]
  by (simp add: numeral_eq_Suc)

section \<open>Missing VINs in scan_records_dashboard\<close>

lemma dropna_map_Str: "dropna (map (\<lambda>x. Str (f x)) xs) = map f xs"
  by (induction xs) auto

lemma sr_vin_column:
  "dropna (map VIN (sr_load_data rows)) = map (\<lambda>r. strip (astype_str (VIN r))) rows"
  by (simp add: sr_load_data_def sr_normalize_def str_strip_def comp_def dropna_map_Str)

lemma in_value_counts:
  "(k, n) \<in> set (value_counts ties ks) \<longleftrightarrow> k \<in> set ks \<and> n = count_list ks k"
  by (auto simp: value_counts_def)

lemma strip_nan: "strip ''nan'' = ''nan''"
  by code_simp

lemma count_nan_ge:
  "length (filter (\<lambda>r. VIN r = NaN) rows)
   \<le> count_list (map (\<lambda>r. strip (astype_str (VIN r))) rows) ''nan''"
  by (induction rows) (auto simp: strip_nan)

lemma vin_texts_split:
  assumes "\<exists>r \<in> set rows. VIN r = NaN"
  shows "set (map (\<lambda>r. strip (astype_str (VIN r))) rows) =
     insert ''nan''
       (set (map (\<lambda>r. strip (astype_str (VIN r))) (filter (\<lambda>r. VIN r \<noteq> NaN) rows)))"
proof -
  have nan: "\<And>r. VIN r = NaN \<Longrightarrow> strip (astype_str (VIN r)) = ''nan''"
    by (simp add: strip_nan)
  from assms obtain r0 where r0: "r0 \<in> set rows" "VIN r0 = NaN" by blast
  have "''nan'' \<in> set (map (\<lambda>r. strip (astype_str (VIN r))) rows)"
    using r0 nan [of r0] by force
  moreover have "set (map (\<lambda>r. strip (astype_str (VIN r))) rows) \<subseteq>
     insert ''nan''
       (set (map (\<lambda>r. strip (astype_str (VIN r))) (filter (\<lambda>r. VIN r \<noteq> NaN) rows)))"
    using nan by auto
  ultimately show ?thesis by auto
qed

text \<open>
  C10. In scan_records_dashboard the VIN column is converted to text before it is trimmed,
  so a row without VIN has the VIN text nan, and \<^verbatim>\<open>dropna\<close> on the column removes no
  row. When some VIN is missing, Unique VINs counts nan as a VIN: it is the number of
  distinct VIN texts of the other rows with nan added, one more than without the rows that
  lack a VIN unless nan is a VIN text there too. The count of nan is at least the number of
  rows without VIN, and with two or more such rows nan is among the VINs scanned multiple
  times.
\<close>

theorem C10_missing_vin_counts_as_nan:
  assumes "sr_summarize all_nat ties (sr_load_data rows) =
             Inr (summary, state_summary, repeat_user_state, scans_by_day)"
    and "\<exists>r \<in> set rows. VIN r = NaN"
  shows "(\<forall>r \<in> set rows. VIN r = NaN \<longrightarrow> VIN (sr_normalize r) = Str ''nan'')
    \<and> length (dropna (map VIN (sr_load_data rows))) = length rows
    \<and> card_value summary ''Unique VINs'' =
        Some (of_nat (card (insert ''nan''
          (fst ` set (sr_vin_counts ties (sr_load_data (filter (\<lambda>r. VIN r \<noteq> NaN) rows)))))))
    \<and> (''nan'' \<notin> fst ` set (sr_vin_counts ties (sr_load_data (filter (\<lambda>r. VIN r \<noteq> NaN) rows)))
        \<longrightarrow> card_value summary ''Unique VINs'' =
          Some (of_nat (length (sr_vin_counts ties
            (sr_load_data (filter (\<lambda>r. VIN r \<noteq> NaN) rows))) + 1)))
    \<and> (\<exists>n. (''nan'', n) \<in> set (sr_vin_counts ties (sr_load_data rows))
          \<and> length (filter (\<lambda>r. VIN r = NaN) rows) \<le> n)
    \<and> (2 \<le> length (filter (\<lambda>r. VIN r = NaN) rows)
        \<longrightarrow> ''nan'' \<in> fst ` set (sr_repeat_vins ties (sr_load_data rows)))
    \<and> card_value summary ''VINs scanned multiple times'' =
        Some (of_nat (length (sr_repeat_vins ties (sr_load_data rows))))"
proof -
  note eqs = sr_summarize_Inr [OF assms(1)]
  let ?txt = "\<lambda>r. strip (astype_str (VIN r))"
  let ?kept = "filter (\<lambda>r. VIN r \<noteq> NaN) rows"
  let ?n = "count_list (map ?txt rows) ''nan''"
  have a: "\<forall>r \<in> set rows. VIN r = NaN \<longrightarrow> VIN (sr_normalize r) = Str ''nan''"
    by (simp add: sr_normalize_def str_strip_def strip_nan)
  have b: "length (dropna (map VIN (sr_load_data rows))) = length rows"
    by (simp add: sr_vin_column)
  have keys: "fst ` set (sr_vin_counts ties (sr_load_data rs)) = set (map ?txt rs)" for rs
    unfolding sr_vin_counts_def sr_vin_column by (rule value_counts_keys_set)
  have len: "length (sr_vin_counts ties (sr_load_data rs)) = card (set (map ?txt rs))" for rs
    unfolding sr_vin_counts_def sr_vin_column by (rule length_value_counts)
  have c: "card_value summary ''Unique VINs'' =
        Some (of_nat (card (insert ''nan'' (fst ` set (sr_vin_counts ties (sr_load_data ?kept))))))"
    unfolding eqs sr_card_values len keys vin_texts_split [OF assms(2)] ..
  have d: "''nan'' \<notin> fst ` set (sr_vin_counts ties (sr_load_data ?kept))
        \<longrightarrow> card_value summary ''Unique VINs'' =
          Some (of_nat (length (sr_vin_counts ties (sr_load_data ?kept)) + 1))"
    unfolding c len keys by (simp del: set_map)
  have nan_in: "''nan'' \<in> set (map ?txt rows)"
    using vin_texts_split [OF assms(2)] by blast
  then have e1: "(''nan'', ?n) \<in> set (sr_vin_counts ties (sr_load_data rows))"
    unfolding sr_vin_counts_def sr_vin_column by (simp add: in_value_counts del: set_map)
  have e: "\<exists>n. (''nan'', n) \<in> set (sr_vin_counts ties (sr_load_data rows))
          \<and> length (filter (\<lambda>r. VIN r = NaN) rows) \<le> n"
    using e1 count_nan_ge [of rows] by blast
  have f: "2 \<le> length (filter (\<lambda>r. VIN r = NaN) rows)
        \<longrightarrow> ''nan'' \<in> fst ` set (sr_repeat_vins ties (sr_load_data rows))"
  proof
    assume "2 \<le> length (filter (\<lambda>r. VIN r = NaN) rows)"
    then have "1 < ?n" using count_nan_ge [of rows] by linarith
    with e1 have "(''nan'', ?n) \<in> set (sr_repeat_vins ties (sr_load_data rows))"
      by (simp add: sr_repeat_vins_def)
    then show "''nan'' \<in> fst ` set (sr_repeat_vins ties (sr_load_data rows))"
      by force
  qed
  have g: "card_value summary ''VINs scanned multiple times'' =
        Some (of_nat (length (sr_repeat_vins ties (sr_load_data rows))))"
    unfolding eqs by (rule sr_card_values)
  from a b c d e f g show ?thesis by blast
qed

theorem C10_missing_vin_counts_as_nan_witness:
  "sr_summarize (Inl ResampleError) stable_ties (sr_load_data
      [ \<lparr> CreatedDateTimeUTC = Some 0, AccountId = Str ''u1'', VIN = NaN,
          State = Str ''CA'', Email = NaN \<rparr>,
        \<lparr> CreatedDateTimeUTC = Some 5, AccountId = Str ''u2'', VIN = Str ''V1'',
          State = Str ''CA'', Email = NaN \<rparr>,
        \<lparr> CreatedDateTimeUTC = None, AccountId = Str ''u3'', VIN = NaN,
          State = Str ''TX'', Email = NaN \<rparr> ])
   = Inr ([ \<lparr> label = ''Total scans'', mvalue = 3,
         description = ''All scan events in the dataset.'', kind = KCount \<rparr>,
       \<lparr> label = ''Repeat-user scans'', mvalue = 0,
         description = ''Scan events coming from repeat users.'', kind = KCount \<rparr>,
       \<lparr> label = ''Repeat-user scan share'', mvalue = 0,
         description = ''Share of total scans that came from repeat users.'',
         kind = KPercent \<rparr>,
       \<lparr> label = ''Unique users'', mvalue = 3,
         description =
           ''Distinct users (AccountId fallback to Email) with at least one scan.'',
         kind = KCount \<rparr>,
       \<lparr> label = ''Repeat users'', mvalue = 0,
         description = ''Users with more than one scan overall.'', kind = KCount \<rparr>,
       \<lparr> label = ''Repeat-user share'', mvalue = 0,
         description = ''Share of users who are repeat users (scanned >1).'',
         kind = KPercent \<rparr>,
       \<lparr> label = ''Unique VINs'', mvalue = 2,
         description = ''Distinct VINs scanned at least once.'', kind = KCount \<rparr>,
       \<lparr> label = ''VINs scanned multiple times'', mvalue = 1,
         description = ''VINs with more than one scan.'', kind = KCount \<rparr> ],
      [ \<lparr> ss_state = ''CA'', total_scans = 2, repeat_scans = 0,
          repeat_scan_share = Some 0, scan_share = Some (2 / 3) \<rparr>,
        \<lparr> ss_state = ''TX'', total_scans = 1, repeat_scans = 0,
          repeat_scan_share = Some 0, scan_share = Some (1 / 3) \<rparr> ],
      [ \<lparr> ru_state = ''CA'', repeat_users = 0, repeat_user_share_all_repeat = Some 0,
          repeat_user_share_in_state = 0 \<rparr>,
        \<lparr> ru_state = ''TX'', repeat_users = 0, repeat_user_share_all_repeat = Some 0,
          repeat_user_share_in_state = 0 \<rparr> ],
      [(0, 2)])
   \<and> ''nan'' \<in> fst ` set (sr_repeat_vins stable_ties (sr_load_data
      [ \<lparr> CreatedDateTimeUTC = Some 0, AccountId = Str ''u1'', VIN = NaN,
          State = Str ''CA'', Email = NaN \<rparr>,
        \<lparr> CreatedDateTimeUTC = Some 5, AccountId = Str ''u2'', VIN = Str ''V1'',
          State = Str ''CA'', Email = NaN \<rparr>,
        \<lparr> CreatedDateTimeUTC = None, AccountId = Str ''u3'', VIN = NaN,
          State = Str ''TX'', Email = NaN \<rparr> ]))"
  (is "?eq \<and> ?a")
proof -
  have eq: ?eq by code_simp
  from C10_missing_vin_counts_as_nan [OF eq]
  have ?a by simp
  with eq show ?thesis by blast
qed

section \<open>Per-state rollups\<close>











end
